theory Spec2Isabelle
  imports Complex_Main "HOL-Library.Multiset" "HOL-Library.AList"
begin

section \<open>Python values shared by both modules\<close>

text \<open>
  A dictionary key of a container: \<open>Tuple.__init__\<close> stores the integers of
  \<open>enumerate\<close>, \<open>ParametersList.__init__\<close> stores their \<open>str\<close>.
\<close>

datatype pykey = KInt int | KStr string

datatype error =
    TypeError string
  | ValueError string
  | KeyError pykey
  | IndexError string

subsection \<open>\<open>str\<close> and \<open>int\<close> on the keys\<close>

definition digit_char :: "nat \<Rightarrow> char" where
  "digit_char d = char_of (48 + d)"

text \<open>\<open>str(n)\<close> for a non-negative integer: its decimal digits, most significant first.\<close>

fun str_nat :: "nat \<Rightarrow> string" where
  "str_nat n = (if n < 10 then [digit_char n] else str_nat (n div 10) @ [digit_char (n mod 10)])"

declare str_nat.simps [simp del]

definition digit_val :: "char \<Rightarrow> nat option" where
  "digit_val c = (let k = (of_char c :: nat) in if 48 \<le> k \<and> k \<le> 57 then Some (k - 48) else None)"

fun parse_digits :: "nat \<Rightarrow> string \<Rightarrow> nat option" where
  "parse_digits acc [] = Some acc"
| "parse_digits acc (c # cs) =
     (case digit_val c of None \<Rightarrow> None | Some d \<Rightarrow> parse_digits (10 * acc + d) cs)"

text \<open>
  \<open>int(s)\<close> on a string: an optional sign and at least one decimal digit; anything else
  is the ValueError of Python (\<open>None\<close> here). The surrounding whitespace and the
  underscores that Python also accepts are not modelled: no key built by \<open>str\<close> has them.
\<close>

definition int_of_str :: "string \<Rightarrow> int option" where
  "int_of_str s =
     (case s of
        [] \<Rightarrow> None
      | c # cs \<Rightarrow>
          if c = CHR ''-'' then (if cs = [] then None else map_option (\<lambda>n. - int n) (parse_digits 0 cs))
          else if c = CHR ''+'' then (if cs = [] then None else map_option int (parse_digits 0 cs))
          else map_option int (parse_digits 0 s))"

text \<open>\<open>int(k)\<close> on a key: the identity on an integer, the parse of a string.\<close>

fun py_int :: "pykey \<Rightarrow> int option" where
  "py_int (KInt i) = Some i"
| "py_int (KStr s) = int_of_str s"

section \<open>numpy arrays\<close>

subsection \<open>float64\<close>

text \<open>
  Rounding to nearest, ties to even, onto the binary64 grid. \<open>float_exponent x\<close> is the
  exponent of the binade of \<open>x\<close> (\<open>2 ^ e \<le> |x| < 2 ^ (e + 1)\<close>), not below \<open>-1022\<close>
  (the subnormal numbers share the spacing of the smallest binade) and \<open>1024\<close> when
  \<open>|x|\<close> is beyond the binades; \<open>quantum x\<close> is the spacing of the grid there, 52
  binary digits below.
\<close>

definition round_half_even :: "real \<Rightarrow> int" where
  "round_half_even y =
     (let f = \<lfloor>y\<rfloor>; d = y - of_int f
      in if d < 1/2 then f else if 1/2 < d then f + 1 else if even f then f else f + 1)"

fun search_exponent :: "nat \<Rightarrow> int \<Rightarrow> real \<Rightarrow> int" where
  "search_exponent 0 k x = k"
| "search_exponent (Suc n) k x = (if x < 2 powi (k + 1) then k else search_exponent n (k + 1) x)"

definition float_exponent :: "real \<Rightarrow> int" where
  "float_exponent x = search_exponent 2046 (-1022) \<bar>x\<bar>"

definition quantum :: "real \<Rightarrow> real" where
  "quantum x = 2 powi (float_exponent x - 52)"

definition rnd64 :: "real \<Rightarrow> real" where
  "rnd64 x = quantum x * of_int (round_half_even (x / quantum x))"

definition max_float64 :: real where
  "max_float64 = (2 - 2 powi (-52)) * 2 powi 1023"

text \<open>
  A float64: \<open>Fin x\<close> is the finite number \<open>x\<close> (\<open>+0.0\<close> for \<open>x = 0\<close>; \<open>x\<close> is on the
  binary64 grid in every value that the operations return), \<open>NegZero\<close> is \<open>-0.0\<close>, and the
  infinities and \<open>nan\<close> are kept, because numpy divides by zero and overflows with a
  warning, not an exception.
\<close>

datatype npfloat = Fin real | NegZero | PInf | NInf | NaN

fun is_finite :: "npfloat \<Rightarrow> bool" where
  "is_finite (Fin x) = True"
| "is_finite NegZero = True"
| "is_finite _ = False"

fun is_inf :: "npfloat \<Rightarrow> bool" where
  "is_inf PInf = True"
| "is_inf NInf = True"
| "is_inf _ = False"

fun is_zero :: "npfloat \<Rightarrow> bool" where
  "is_zero (Fin x) = (x = 0)"
| "is_zero NegZero = True"
| "is_zero _ = False"

fun sign_bit :: "npfloat \<Rightarrow> bool" where
  "sign_bit (Fin x) = (x < 0)"
| "sign_bit NegZero = True"
| "sign_bit NInf = True"
| "sign_bit _ = False"

fun real_of :: "npfloat \<Rightarrow> real" where
  "real_of (Fin x) = x"
| "real_of _ = 0"

definition signed_inf :: "bool \<Rightarrow> npfloat" where
  "signed_inf neg = (if neg then NInf else PInf)"

definition signed_zero :: "bool \<Rightarrow> npfloat" where
  "signed_zero neg = (if neg then NegZero else Fin 0)"

text \<open>
  The float64 for an exact result \<open>r\<close> whose sign is \<open>neg\<close>: \<open>r\<close> is rounded; beyond the
  largest finite number the result is an infinity, and a zero keeps the sign.
\<close>

definition fl :: "bool \<Rightarrow> real \<Rightarrow> npfloat" where
  "fl neg r =
     (let y = rnd64 r
      in if max_float64 < \<bar>y\<bar> then signed_inf neg
         else if y = 0 then signed_zero neg
         else Fin y)"

text \<open>The IEEE 754 product, quotient and sum, as numpy computes them on float64.\<close>

definition np_mul :: "npfloat \<Rightarrow> npfloat \<Rightarrow> npfloat" where
  "np_mul x y =
     (if x = NaN \<or> y = NaN then NaN
      else let neg = (sign_bit x \<noteq> sign_bit y)
           in if is_inf x \<or> is_inf y then (if is_zero x \<or> is_zero y then NaN else signed_inf neg)
              else fl neg (real_of x * real_of y))"

definition np_div :: "npfloat \<Rightarrow> npfloat \<Rightarrow> npfloat" where
  "np_div x y =
     (if x = NaN \<or> y = NaN then NaN
      else let neg = (sign_bit x \<noteq> sign_bit y)
           in if is_inf x then (if is_inf y then NaN else signed_inf neg)
              else if is_inf y then signed_zero neg
              else if is_zero y then (if is_zero x then NaN else signed_inf neg)
              else fl neg (real_of x / real_of y))"

definition np_add :: "npfloat \<Rightarrow> npfloat \<Rightarrow> npfloat" where
  "np_add x y =
     (if x = NaN \<or> y = NaN then NaN
      else if is_inf x then (if is_inf y \<and> y \<noteq> x then NaN else x)
      else if is_inf y then y
      else let s = real_of x + real_of y
           in if s = 0 then signed_zero (sign_bit x \<and> sign_bit y)
              else fl (s < 0) s)"

text \<open>
  The tolerance of a round trip through a scaling: \<open>unit_roundoff\<close> is the largest
  relative error of one rounding of a normal number, \<open>underflow_unit\<close> the largest
  absolute error of one rounding of a subnormal number; two roundings happen, and
  \<open>scale\<close> is the factor that the second operation applies to the error of the first.
\<close>

definition unit_roundoff :: real where
  "unit_roundoff = 2 powi (-53)"

definition underflow_unit :: real where
  "underflow_unit = 2 powi (-1075)"

definition round_trip_tolerance :: "real \<Rightarrow> real \<Rightarrow> real" where
  "round_trip_tolerance scale a =
     (2 * unit_roundoff + unit_roundoff\<^sup>2) * \<bar>a\<bar>
     + (1 + unit_roundoff) * underflow_unit * scale + underflow_unit"

text \<open>
  \<open>y\<close> is \<open>x\<close> after a round trip whose intermediate result is \<open>p\<close>, modulo the
  tolerance: when \<open>x\<close> is finite and neither operation overflowed, \<open>y\<close> is within the
  tolerance of \<open>x\<close>; an infinity or \<open>nan\<close> comes back as it is.
\<close>

definition round_trip_ok :: "real \<Rightarrow> npfloat \<Rightarrow> npfloat \<Rightarrow> npfloat \<Rightarrow> bool" where
  "round_trip_ok scale x p y =
     (if is_finite x
      then (is_finite p \<and> is_finite y \<longrightarrow>
              \<bar>real_of y - real_of x\<bar> \<le> round_trip_tolerance scale (real_of x))
      else y = x)"

subsection \<open>Arrays\<close>

text \<open>
  An \<open>ndarray\<close>: its shape and its elements in row-major order. numpy keeps
  \<open>length (flat a) = prod_list (shape a)\<close>.
\<close>

record ndarray =
  shape :: "nat list"
  flat :: "npfloat list"

definition wf_ndarray :: "ndarray \<Rightarrow> bool" where
  "wf_ndarray a = (length (flat a) = prod_list (shape a))"

definition np_zeros :: "nat list \<Rightarrow> ndarray" where
  "np_zeros s = \<lparr>shape = s, flat = replicate (prod_list s) (Fin 0)\<rparr>"

text \<open>\<open>sigma * data\<close> and \<open>value / sigma\<close> for a scalar \<open>sigma\<close>: elementwise, same shape.\<close>

definition np_scalar_mul :: "npfloat \<Rightarrow> ndarray \<Rightarrow> ndarray" where
  "np_scalar_mul s a = a\<lparr>flat := map (np_mul s) (flat a)\<rparr>"

definition np_div_scalar :: "ndarray \<Rightarrow> npfloat \<Rightarrow> ndarray" where
  "np_div_scalar a s = a\<lparr>flat := map (\<lambda>x. np_div x s) (flat a)\<rparr>"

text \<open>The \<open>repr\<close> of a shape tuple, as the error messages print it.\<close>

fun join_comma :: "string list \<Rightarrow> string" where
  "join_comma [] = []"
| "join_comma [x] = x"
| "join_comma (x # y # ys) = x @ '', '' @ join_comma (y # ys)"

definition shape_repr :: "nat list \<Rightarrow> string" where
  "shape_repr s =
     (case s of
        [] \<Rightarrow> ''()''
      | [n] \<Rightarrow> ''('' @ str_nat n @ '',)''
      | _ \<Rightarrow> ''('' @ join_comma (map str_nat s) @ '')'')"

text \<open>\<open>a.reshape(s)\<close>: the same elements under a new shape, a ValueError when the sizes differ.\<close>

definition np_reshape :: "ndarray \<Rightarrow> nat list \<Rightarrow> error + ndarray" where
  "np_reshape a s =
     (if prod_list s = length (flat a) then Inr \<lparr>shape = s, flat = flat a\<rparr>
      else Inl (ValueError (''cannot reshape array of size '' @ str_nat (length (flat a))
                            @ '' into shape '' @ shape_repr s)))"

definition np_ravel :: "ndarray \<Rightarrow> ndarray" where
  "np_ravel a = \<lparr>shape = [length (flat a)], flat = flat a\<rparr>"

text \<open>
  \<open>np.mean(rows, axis=0)\<close> on a list of arrays: the rows are stacked, each column is summed
  and divided by the number of rows. Rows of different shapes do not stack (the ValueError
  of numpy 1.24 and later); the mean of no rows is \<open>nan\<close>.
\<close>

definition vec_add :: "npfloat list \<Rightarrow> npfloat list \<Rightarrow> npfloat list" where
  "vec_add xs ys = map2 np_add xs ys"

definition np_mean_axis0 :: "ndarray list \<Rightarrow> error + ndarray" where
  "np_mean_axis0 rows =
     (case rows of
        [] \<Rightarrow> Inr \<lparr>shape = [], flat = [NaN]\<rparr>
      | r # rs \<Rightarrow>
          if list_all (\<lambda>q. shape q = shape r) rs then
            Inr \<lparr>shape = shape r,
                 flat = map (\<lambda>x. np_div x (Fin (real (length rows))))
                            (foldl vec_add (flat r) (map flat rs))\<rparr>
          else Inl (ValueError ''setting an array element with a sequence''))"

section \<open>\<open>instrumentation/parameter.py\<close>: class \<open>Array\<close>\<close>

text \<open>
  Arrays are objects: two names can hold the same \<open>ndarray\<close>. The store is the list of
  the arrays allocated so far, an address is an index in it.
\<close>

type_synonym addr = nat
type_synonym heap = "ndarray list"

definition alloc :: "heap \<Rightarrow> ndarray \<Rightarrow> addr \<times> heap" where
  "alloc h a = (length h, h @ [a])"

text \<open>
  What a caller can assign to \<open>value\<close>: a reference to an \<open>ndarray\<close>, or an object of
  another type, of which only the \<open>repr\<close> of its type matters.
\<close>

datatype pyobj = Ndarray addr | Other string

text \<open>
  An \<open>Array\<close> object. The base class (\<open>core3.Parameter\<close>) keeps the constructor's keyword
  arguments as sub-parameters and \<open>_get_parameter_value\<close> reads their current value; the
  record holds these current values, \<open>sigma\<close> being a scalar. \<open>_value\<close> is a reference.
\<close>

record Array =
  shape_arg :: "nat list"
  sigma :: npfloat
  distribution :: string
  recombination :: string
  value_ref :: addr

text \<open>
  The constructor. \<open>shape\<close> is a tuple of integers by its type, so the assertion holds;
  \<open>super().__init__\<close> keeps the arguments; the value starts as \<open>np.zeros(shape)\<close>.
\<close>

definition Array_init :: "nat list \<Rightarrow> npfloat \<Rightarrow> string \<Rightarrow> string \<Rightarrow> heap \<Rightarrow> Array \<times> heap" where
  "Array_init shp sg distr recomb h =
     (let (r, h') = alloc h (np_zeros shp)
      in (\<lparr>shape_arg = shp, sigma = sg, distribution = distr, recombination = recomb,
           value_ref = r\<rparr>, h'))"

text \<open>The getter returns the stored reference itself.\<close>

definition Array_value :: "Array \<Rightarrow> pyobj" where
  "Array_value self = Ndarray (value_ref self)"

text \<open>
  The setter. A raise leaves the object as it is; the result is the error, if any, and
  the object after the call.
\<close>

definition Array_set_value :: "Array \<Rightarrow> pyobj \<Rightarrow> heap \<Rightarrow> error option \<times> Array" where
  "Array_set_value self v h =
     (case v of
        Other ty \<Rightarrow> (Some (TypeError (''Received a '' @ ty @ '' in place of a np.ndarray'')), self)
      | Ndarray r \<Rightarrow>
          if shape (h ! value_ref self) \<noteq> shape (h ! r) then
            (Some (ValueError (''Cannot set array of shape '' @ shape_repr (shape (h ! value_ref self))
                               @ '' with value of shape '' @ shape_repr (shape (h ! r)))), self)
          else (None, self\<lparr>value_ref := r\<rparr>))"

text \<open>
  \<open>with_std_data\<close>: the product is a new array, so the object gets a fresh reference.
  \<open>deterministic\<close> is not used (the source disables the warning about it).
\<close>

definition with_std_data :: "Array \<Rightarrow> ndarray \<Rightarrow> bool \<Rightarrow> heap \<Rightarrow> error option \<times> Array \<times> heap" where
  "with_std_data self d deterministic h =
     (let sg = sigma self in
      case np_reshape (np_scalar_mul sg d) (shape (h ! value_ref self)) of
        Inl e \<Rightarrow> (Some e, self, h)
      | Inr a \<Rightarrow> (let (r, h') = alloc h a in (None, self\<lparr>value_ref := r\<rparr>, h')))"

text \<open>
  Modelled from the spec: \<open>Parameter.spawn_child\<close> of the base class, which is not in the
  sources: "a new node of the same topology", here a newly constructed \<open>Array\<close> with the
  parent's sub-parameter values.
\<close>

definition Parameter_spawn_child :: "Array \<Rightarrow> heap \<Rightarrow> Array \<times> heap" where
  "Parameter_spawn_child self h =
     Array_init (shape_arg self) (sigma self) (distribution self) (recombination self) h"

definition spawn_child :: "Array \<Rightarrow> heap \<Rightarrow> Array \<times> heap" where
  "spawn_child self h =
     (let (child, h') = Parameter_spawn_child self h
      in (child\<lparr>value_ref := value_ref self\<rparr>, h'))"

definition to_std_data :: "Array \<Rightarrow> heap \<Rightarrow> ndarray" where
  "to_std_data self h =
     (let sg = sigma self; reduced = np_div_scalar (h ! value_ref self) sg
      in np_ravel reduced)"

definition recombine :: "Array \<Rightarrow> Array list \<Rightarrow> heap \<Rightarrow> error option \<times> Array \<times> heap" where
  "recombine self others h =
     (let recomb = recombination self; all_p = self # others in
      if recomb = ''average'' then
        (case np_mean_axis0 (map (\<lambda>p. to_std_data p h) all_p) of
           Inl e \<Rightarrow> (Some e, self, h)
         | Inr m \<Rightarrow> with_std_data self m True h)
      else (Some (ValueError (''Unknown recombination '' @ [CHR 0x22] @ recomb @ [CHR 0x22])), self, h))"

text \<open>
  What a caller does with the array the getter returned: \<open>a.flat[i] = x\<close>, in place.
\<close>

definition ndarray_setitem :: "addr \<Rightarrow> nat \<Rightarrow> npfloat \<Rightarrow> heap \<Rightarrow> error option \<times> heap" where
  "ndarray_setitem r i x h =
     (if i < length (flat (h ! r)) then (None, h[r := (h ! r)\<lparr>flat := (flat (h ! r))[i := x]\<rparr>])
      else (Some (IndexError ''index out of bounds''), h))"

text \<open>An object whose reference points into the store.\<close>

definition valid :: "Array \<Rightarrow> heap \<Rightarrow> bool" where
  "valid self h = (value_ref self < length h \<and> wf_ndarray (h ! value_ref self))"

text \<open>The array an object holds, and the object and the store a call leaves behind.\<close>

definition stored :: "Array \<Rightarrow> heap \<Rightarrow> ndarray" where
  "stored self h = h ! value_ref self"

definition array_after :: "error option \<times> Array \<times> heap \<Rightarrow> Array" where
  "array_after r = fst (snd r)"

definition heap_after :: "error option \<times> Array \<times> heap \<Rightarrow> heap" where
  "heap_after r = snd (snd r)"

subsection \<open>Concrete arrays for the scenarios\<close>

definition vec3 :: "real \<Rightarrow> real \<Rightarrow> real \<Rightarrow> ndarray" where
  "vec3 a b c = \<lparr>shape = [3], flat = [Fin a, Fin b, Fin c]\<rparr>"

definition vec1 :: "npfloat \<Rightarrow> ndarray" where
  "vec1 x = \<lparr>shape = [1], flat = [x]\<rparr>"

text \<open>
  \<open>a = Array(shape, sigma)\<close> in an empty store, followed by \<open>a.value = v\<close> for an array
  \<open>v\<close> that the caller has built.
\<close>

definition array_set_to :: "nat list \<Rightarrow> npfloat \<Rightarrow> ndarray \<Rightarrow> Array \<times> heap" where
  "array_set_to shp sg v =
     (let (a, h1) = Array_init shp sg ''linear'' ''average'' [];
          (r, h2) = alloc h1 v
      in (snd (Array_set_value a (Ndarray r) h2), h2))"

text \<open>Two arrays of three elements in one store, with \<open>sigma = 2\<close>.\<close>

definition two_heap :: heap where
  "two_heap = [vec3 2 4 6, vec3 4 8 10]"

definition two_first :: Array where
  "two_first = \<lparr>shape_arg = [3], sigma = Fin 2, distribution = ''linear'',
                 recombination = ''average'', value_ref = 0\<rparr>"

definition two_second :: Array where
  "two_second = \<lparr>shape_arg = [3], sigma = Fin 2, distribution = ''linear'',
                  recombination = ''average'', value_ref = 1\<rparr>"

text \<open>
  The double nearest to a third of the largest double, and the Array that the overflow
  scenarios use: \<open>sigma = 3.0\<close>, value \<open>[1.7976931348623157e+308]\<close>.
\<close>

definition third_of_max_float64 :: real where
  "third_of_max_float64 = 6004799503160661 * 2 powi 970"

definition largest_array :: "Array \<times> heap" where
  "largest_array = array_set_to [1] (Fin 3) (vec1 (Fin max_float64))"

text \<open>\<open>Array(shape=(1,))\<close> in an empty store, and its child.\<close>

definition fresh_parent :: "Array \<times> heap" where
  "fresh_parent = Array_init [1] (Fin 1) ''linear'' ''average'' []"

definition fresh_child :: "Array \<times> heap" where
  "fresh_child = spawn_child (fst fresh_parent) (snd fresh_parent)"

section \<open>Containers: \<open>ParametersList\<close> and \<open>Tuple\<close>\<close>

text \<open>
  What a container stores under a key: an object that is a \<open>Parameter\<close> (of type \<open>'p\<close>,
  whose classes are not in the sources) or any other object (a value of type \<open>'v\<close>).
  The \<open>value\<close> getter and setter of a child Parameter are the arguments \<open>getv\<close> and
  \<open>setv\<close> of the functions below; \<open>setv\<close> returns the error it raised, if any, and the
  child after the call.
\<close>

datatype ('p, 'v) child = Param 'p | Raw 'v


text \<open>The dictionary \<open>_parameters\<close>, in its storage (insertion) order.\<close>

type_synonym ('p, 'v) parameters = "(pykey \<times> ('p, 'v) child) list"

text \<open>
  \<open>sorted(items, key=lambda x: int(x[0]))\<close>: the keys are computed first, so a key that
  \<open>int\<close> rejects raises before anything is sorted; the sort is stable.
\<close>

definition sorted_by_int_key :: "(pykey \<times> 'c) list \<Rightarrow> error + (pykey \<times> 'c) list" where
  "sorted_by_int_key items =
     (if list_ex (\<lambda>x. py_int (fst x) = None) items
      then Inl (ValueError ''invalid literal for int() with base 10'')
      else Inr (sort_key (\<lambda>x. the (py_int (fst x))) items))"

text \<open>
  \<open>for k, val in enumerate(value)\<close> of both setters: the child under the key of position
  \<open>k\<close> is looked up (a KeyError when there is none), \<open>assign\<close> does the assignment of the
  class, and an error stops the loop with what was assigned so far.
\<close>

fun enumerate_assign ::
  "(nat \<Rightarrow> pykey) \<Rightarrow> (('p, 'v) child \<Rightarrow> 'v \<Rightarrow> error option \<times> ('p, 'v) child) \<Rightarrow>
   (nat \<times> 'v) list \<Rightarrow> ('p, 'v) parameters \<Rightarrow> error option \<times> ('p, 'v) parameters" where
  "enumerate_assign key assign [] ps = (None, ps)"
| "enumerate_assign key assign ((k, val) # rest) ps =
     (case map_of ps (key k) of
        None \<Rightarrow> (Some (KeyError (key k)), ps)
      | Some c \<Rightarrow>
          (case assign c val of
             (Some e, c') \<Rightarrow> (Some e, AList.update (key k) c' ps)
           | (None, c') \<Rightarrow> enumerate_assign key assign rest (AList.update (key k) c' ps)))"

subsection \<open>\<open>instrumentation/parameter.py\<close>: class \<open>ParametersList\<close>\<close>

definition ParametersList_init :: "('p, 'v) child list \<Rightarrow> ('p, 'v) parameters" where
  "ParametersList_init parameters =
     map (\<lambda>(k, p). (KStr (str_nat k), p)) (enumerate 0 parameters)"


definition ParametersList_assign ::
  "('p \<Rightarrow> 'v \<Rightarrow> error option \<times> 'p) \<Rightarrow> ('p, 'v) child \<Rightarrow> 'v \<Rightarrow> error option \<times> ('p, 'v) child" where
  "ParametersList_assign setv param val =
     (case param of
        Raw _ \<Rightarrow> (None, Raw val)
      | Param q \<Rightarrow> (case setv q val of (e, q') \<Rightarrow> (e, Param q')))"

definition ParametersList_set_value ::
  "('p \<Rightarrow> 'v \<Rightarrow> error option \<times> 'p) \<Rightarrow> 'v list \<Rightarrow> ('p, 'v) parameters \<Rightarrow>
   error option \<times> ('p, 'v) parameters" where
  "ParametersList_set_value setv val ps =
     enumerate_assign (\<lambda>k. KStr (str_nat k)) (ParametersList_assign setv) (enumerate 0 val) ps"

subsection \<open>\<open>parametrization/container.py\<close>: class \<open>Tuple\<close>\<close>

text \<open>
  Modelled from the spec: \<open>core.as_parameter\<close>, which is not in the sources. The spec lets
  a container hold constants next to Parameters; here a Parameter is returned as it is and
  any other object goes through \<open>constant\<close>, the constructor of the Parameter that wraps a
  constant, an argument of the model.
\<close>

definition as_parameter :: "('v \<Rightarrow> 'p) \<Rightarrow> ('p, 'v) child \<Rightarrow> 'p" where
  "as_parameter constant c = (case c of Param q \<Rightarrow> q | Raw v \<Rightarrow> constant v)"

text \<open>
  \<open>_sanity_check\<close> belongs to the base class and is an argument: it returns the error it
  raises, if any.
\<close>

definition Tuple_init ::
  "('v \<Rightarrow> 'p) \<Rightarrow> ('p list \<Rightarrow> error option) \<Rightarrow> ('p, 'v) child list \<Rightarrow> error + ('p, 'v) parameters" where
  "Tuple_init constant sanity_check parameters =
     (let ps = map (\<lambda>(k, p). (KInt (int k), as_parameter constant p)) (enumerate 0 parameters)
      in case sanity_check (map snd ps) of
           Some e \<Rightarrow> Inl e
         | None \<Rightarrow> Inr (map (\<lambda>(k, q). (k, Param q)) ps))"

definition Tuple_value :: "('p \<Rightarrow> 'v) \<Rightarrow> ('p, 'v) parameters \<Rightarrow> error + 'v list" where
  "Tuple_value getv ps =
     (case sorted_by_int_key ps of
        Inl e \<Rightarrow> Inl e
      | Inr items \<Rightarrow>
          (let param_val = map snd items
           in Inr (map (\<lambda>p. case p of Param q \<Rightarrow> getv q | Raw v \<Rightarrow> v) param_val)))"

text \<open>
  \<open>core.as_parameter(self[k]).value = val\<close>: the setter runs on the stored object when it is
  a Parameter, and on a wrapper that nothing keeps otherwise.
\<close>

definition Tuple_assign ::
  "('v \<Rightarrow> 'p) \<Rightarrow> ('p \<Rightarrow> 'v \<Rightarrow> error option \<times> 'p) \<Rightarrow> ('p, 'v) child \<Rightarrow> 'v \<Rightarrow>
   error option \<times> ('p, 'v) child" where
  "Tuple_assign constant setv c val =
     (case setv (as_parameter constant c) val of
        (e, q') \<Rightarrow> (e, case c of Param _ \<Rightarrow> Param q' | Raw v \<Rightarrow> Raw v))"

definition Tuple_set_value ::
  "('v \<Rightarrow> 'p) \<Rightarrow> ('p \<Rightarrow> 'v \<Rightarrow> error option \<times> 'p) \<Rightarrow> 'v list \<Rightarrow> ('p, 'v) parameters \<Rightarrow>
   error option \<times> ('p, 'v) parameters" where
  "Tuple_set_value constant setv val ps =
     enumerate_assign (\<lambda>k. KInt (int k)) (Tuple_assign constant setv) (enumerate 0 val) ps"

subsection \<open>\<open>parametrization/container.py\<close>: class \<open>Instrumentation\<close>\<close>

text \<open>
  An \<open>Instrumentation\<close> is a \<open>Tuple\<close> with one more field, \<open>_compatibility_\<close>, which is
  \<open>None\<close> or another \<open>Instrumentation\<close>.
\<close>

datatype ('p, 'v) instrumentation =
  Instrumentation (parameters_of: "('p, 'v) parameters")
                  (compatibility_field: "('p, 'v) instrumentation option")


text \<open>
  The property \<open>_compatibility\<close>: the copy, and the object with the copy stored in it.
  \<open>spawn_child\<close> of the base class is the argument \<open>spawn\<close>.
\<close>

definition compatibility ::
  "(('p, 'v) instrumentation \<Rightarrow> ('p, 'v) instrumentation) \<Rightarrow> ('p, 'v) instrumentation \<Rightarrow>
   ('p, 'v) instrumentation \<times> ('p, 'v) instrumentation" where
  "compatibility spawn self =
     (case compatibility_field self of
        None \<Rightarrow> (let c = spawn self in (c, Instrumentation (parameters_of self) (Some c)))
      | Some c \<Rightarrow> (c, self))"

text \<open>
  \<open>arguments_to_data\<close>: the setter of \<open>Tuple\<close> runs on the copy with the pair
  \<open>(args, kwargs)\<close>, which changes the copy in place; \<open>get_standardized_data\<close> of the base
  class is the argument \<open>get_std\<close>. The result is what the call returns or raises, and the
  object after the call.
\<close>

definition arguments_to_data ::
  "(('p, 'v) instrumentation \<Rightarrow> ('p, 'v) instrumentation) \<Rightarrow> ('v \<Rightarrow> 'p) \<Rightarrow>
   ('p \<Rightarrow> 'v \<Rightarrow> error option \<times> 'p) \<Rightarrow> (('p, 'v) instrumentation \<Rightarrow> 'd) \<Rightarrow>
   'v \<Rightarrow> 'v \<Rightarrow> ('p, 'v) instrumentation \<Rightarrow> (error + 'd) \<times> ('p, 'v) instrumentation" where
  "arguments_to_data spawn constant setv get_std args kwargs self =
     (let (c, self1) = compatibility spawn self;
          (e, ps) = Tuple_set_value constant setv [args, kwargs] (parameters_of c);
          c' = Instrumentation ps (compatibility_field c);
          self2 = Instrumentation (parameters_of self1) (Some c')
      in case e of
           Some err \<Rightarrow> (Inl err, self2)
         | None \<Rightarrow> (let (c2, self3) = compatibility spawn self2 in (Inr (get_std c2), self3)))"

text \<open>
  \<open>data_to_arguments\<close>: \<open>set_standardized_data\<close> of the base class is the argument
  \<open>set_std\<close>, which returns the error it raised, if any, and the copy after the call.
\<close>

definition data_to_arguments ::
  "(('p, 'v) instrumentation \<Rightarrow> ('p, 'v) instrumentation) \<Rightarrow> ('p \<Rightarrow> 'v) \<Rightarrow>
   ('d \<Rightarrow> bool \<Rightarrow> ('p, 'v) instrumentation \<Rightarrow> error option \<times> ('p, 'v) instrumentation) \<Rightarrow>
   'd \<Rightarrow> bool \<Rightarrow> ('p, 'v) instrumentation \<Rightarrow> (error + 'v list) \<times> ('p, 'v) instrumentation" where
  "data_to_arguments spawn getv set_std dat deterministic self =
     (let (c, self1) = compatibility spawn self;
          (e, c') = set_std dat deterministic c;
          self2 = Instrumentation (parameters_of self1) (Some c')
      in case e of
           Some err \<Rightarrow> (Inl err, self2)
         | None \<Rightarrow> (let (c2, self3) = compatibility spawn self2
                    in (Tuple_value getv (parameters_of c2), self3)))"

subsection \<open>A leaf for the examples\<close>


definition leaf_set :: "int \<Rightarrow> int \<Rightarrow> error option \<times> int" where
  "leaf_set q v = (None, v)"

text \<open>A setter like that of \<open>leaf_set\<close> which rejects negative integers.\<close>

definition picky_set :: "int \<Rightarrow> int \<Rightarrow> error option \<times> int" where
  "picky_set q v = (if v < 0 then (Some (ValueError ''negative''), q) else (None, v))"

definition leaf_constant :: "int \<Rightarrow> int" where
  "leaf_constant v = v"

definition no_check :: "int list \<Rightarrow> error option" where
  "no_check qs = None"

text \<open>A \<open>spawn_child\<close> that copies the children and stores no copy in the copy.\<close>

definition copy_spawn :: "(int, int) instrumentation \<Rightarrow> (int, int) instrumentation" where
  "copy_spawn self = Instrumentation (parameters_of self) None"

definition two_leaves :: "(int, int) parameters" where
  "two_leaves = [(KInt 0, Param 3), (KInt 1, Param 4)]"

section \<open>Properties of float64\<close>

subsection \<open>Rounding\<close>

lemma round_half_even_error: "\<bar>of_int (round_half_even y) - y\<bar> \<le> 1/2"
  unfolding round_half_even_def Let_def by (auto simp: abs_if) linarith+

lemma round_half_even_int: "round_half_even (of_int m) = m"
  by (simp add: round_half_even_def)

lemma round_half_even_ge: "of_int n \<le> y \<Longrightarrow> n \<le> round_half_even y"
proof -
  assume "of_int n \<le> y"
  then have "n \<le> \<lfloor>y\<rfloor>" by (simp add: le_floor_iff)
  then show ?thesis by (simp add: round_half_even_def Let_def)
qed

lemma round_half_even_le: "y \<le> of_int n \<Longrightarrow> round_half_even y \<le> n"
proof -
  assume a: "y \<le> of_int n"
  then have f: "\<lfloor>y\<rfloor> \<le> n" by (simp add: floor_le_iff)
  show ?thesis
  proof (cases "\<lfloor>y\<rfloor> = n")
    case True
    with a have "y - of_int \<lfloor>y\<rfloor> \<le> 0" by simp
    then show ?thesis using True by (simp add: round_half_even_def Let_def)
  next
    case False
    with f have "\<lfloor>y\<rfloor> + 1 \<le> n" by simp
    with f show ?thesis by (simp add: round_half_even_def Let_def)
  qed
qed

lemma search_exponent_bounds:
  "k \<le> search_exponent n k x \<and> search_exponent n k x \<le> k + int n
   \<and> (search_exponent n k x < k + int n \<longrightarrow> x < 2 powi (search_exponent n k x + 1))
   \<and> (k < search_exponent n k x \<longrightarrow> 2 powi (search_exponent n k x) \<le> x)"
proof (induction n arbitrary: k)
  case 0
  show ?case by simp
next
  case (Suc n)
  show ?case
  proof (cases "x < 2 powi (k + 1)")
    case True
    then show ?thesis by simp
  next
    case False
    let ?r = "search_exponent n (k + 1) x"
    from Suc [of "k + 1"] have ih: "k + 1 \<le> ?r" "?r \<le> k + 1 + int n"
      "?r < k + 1 + int n \<longrightarrow> x < 2 powi (?r + 1)" "k + 1 < ?r \<longrightarrow> 2 powi ?r \<le> x"
      by simp_all
    have "2 powi ?r \<le> x"
    proof (cases "?r = k + 1")
      case True
      with False show ?thesis by simp
    next
      case False
      with ih show ?thesis by simp
    qed
    with ih False show ?thesis by simp
  qed
qed

lemma float_exponent_cases:
  "(float_exponent x = 1024 \<and> 2 powi 1024 \<le> \<bar>x\<bar>)
   \<or> (-1022 \<le> float_exponent x \<and> float_exponent x \<le> 1023
       \<and> \<bar>x\<bar> < 2 powi (float_exponent x + 1)
       \<and> (float_exponent x = -1022 \<or> 2 powi float_exponent x \<le> \<bar>x\<bar>))"
proof -
  let ?e = "float_exponent x"
  from search_exponent_bounds [of "-1022" 2046 "\<bar>x\<bar>"]
  have b: "-1022 \<le> ?e" "?e \<le> 1024" "?e < 1024 \<longrightarrow> \<bar>x\<bar> < 2 powi (?e + 1)"
    "-1022 < ?e \<longrightarrow> 2 powi ?e \<le> \<bar>x\<bar>"
    by (simp_all add: float_exponent_def)
  show ?thesis
  proof (cases "?e = 1024")
    case True
    with b(4) show ?thesis by simp
  next
    case False
    with b have "?e \<le> 1023" "\<bar>x\<bar> < 2 powi (?e + 1)" "?e = -1022 \<or> 2 powi ?e \<le> \<bar>x\<bar>"
      by auto
    with b(1) show ?thesis by blast
  qed
qed

lemma float_exponent_eq:
  assumes "-1022 \<le> k" and "k \<le> 1023" and "\<bar>x\<bar> < 2 powi (k + 1)"
    and "k = -1022 \<or> 2 powi k \<le> \<bar>x\<bar>"
  shows "float_exponent x = k"
proof -
  let ?e = "float_exponent x"
  have mono: "\<And>a b::int. a + 1 \<le> b \<Longrightarrow> (2::real) powi (a + 1) \<le> 2 powi b"
    by (rule power_int_increasing) simp_all
  from float_exponent_cases [of x]
  show ?thesis
  proof
    assume a: "?e = 1024 \<and> 2 powi 1024 \<le> \<bar>x\<bar>"
    from assms(2) have "k + 1 \<le> 1024" by simp
    from mono [OF this] assms(3) a show ?thesis by simp
  next
    assume a: "-1022 \<le> ?e \<and> ?e \<le> 1023 \<and> \<bar>x\<bar> < 2 powi (?e + 1)
       \<and> (?e = -1022 \<or> 2 powi ?e \<le> \<bar>x\<bar>)"
    show ?thesis
    proof (rule ccontr)
      assume ne: "?e \<noteq> k"
      show False
      proof (cases "?e < k")
        case True
        then have "?e + 1 \<le> k" by simp
        from mono [OF this] a have "\<bar>x\<bar> < 2 powi k" by simp
        moreover from True a have "k \<noteq> -1022" by simp
        ultimately show False using assms(4) by simp
      next
        case False
        with ne have "k + 1 \<le> ?e" by simp
        from mono [OF this] assms(3) have "\<bar>x\<bar> < 2 powi ?e" by simp
        moreover from False ne assms(1) have "?e \<noteq> -1022" by simp
        ultimately show False using a by simp
      qed
    qed
  qed
qed


lemma quantum_pos: "0 < quantum x"
  by (simp add: quantum_def)

lemma rnd64_diff: "\<bar>rnd64 x - x\<bar> \<le> quantum x / 2"
proof -
  have q: "0 < quantum x" by (rule quantum_pos)
  have "rnd64 x - x = quantum x * (of_int (round_half_even (x / quantum x)) - x / quantum x)"
    using q by (simp add: rnd64_def algebra_simps)
  then have "\<bar>rnd64 x - x\<bar> = quantum x * \<bar>of_int (round_half_even (x / quantum x)) - x / quantum x\<bar>"
    using q by (simp add: abs_mult)
  also have "\<dots> \<le> quantum x * (1/2)"
    using q round_half_even_error [of "x / quantum x"] by (intro mult_left_mono) simp_all
  finally show ?thesis by simp
qed

lemma quantum_bound: "quantum x / 2 \<le> unit_roundoff * \<bar>x\<bar> + underflow_unit"
proof -
  let ?e = "float_exponent x"
  have split: "quantum x / 2 = 2 powi (-53) * 2 powi ?e"
  proof -
    have "quantum x = 2 powi (?e + (-52))" by (simp add: quantum_def)
    also have "\<dots> = 2 powi ?e * 2 powi (-52)" by (subst power_int_add) simp_all
    finally show ?thesis by simp
  qed
  have u: "0 \<le> underflow_unit" "0 \<le> unit_roundoff * \<bar>x\<bar>"
    by (simp_all add: underflow_unit_def unit_roundoff_def)
  from float_exponent_cases [of x]
  consider "2 powi ?e \<le> \<bar>x\<bar>" | "?e = -1022" by auto
  then show ?thesis
  proof cases
    case 1
    then have "2 powi (-53) * 2 powi ?e \<le> 2 powi (-53) * \<bar>x\<bar>"
      by (intro mult_left_mono) simp_all
    with u(1) show ?thesis by (simp add: split unit_roundoff_def)
  next
    case 2
    have "(2::real) powi (-53) * 2 powi (-1022) = 2 powi (-53 + -1022)"
      by (subst power_int_add) simp_all
    then have "quantum x / 2 = underflow_unit"
      using 2 by (simp add: split underflow_unit_def)
    with u(2) show ?thesis by simp
  qed
qed

lemma rnd64_error: "\<bar>rnd64 x - x\<bar> \<le> unit_roundoff * \<bar>x\<bar> + underflow_unit"
  using rnd64_diff [of x] quantum_bound [of x] by linarith

lemma rnd64_exact:
  assumes "-1022 \<le> k" and "k \<le> 1023" and "\<bar>x\<bar> < 2 powi (k + 1)"
    and "k = -1022 \<or> 2 powi k \<le> \<bar>x\<bar>"
    and "x = of_int m * 2 powi (k - 52)"
  shows "rnd64 x = x"
proof -
  have e: "float_exponent x = k" by (rule float_exponent_eq [OF assms(1-4)])
  have d: "x / 2 powi (k - 52) = of_int m" by (subst assms(5)) simp
  have "rnd64 x = 2 powi (k - 52) * of_int (round_half_even (x / 2 powi (k - 52)))"
    by (simp only: rnd64_def quantum_def e)
  also have "\<dots> = 2 powi (k - 52) * of_int m"
    by (simp only: d round_half_even_int)
  also have "\<dots> = x" using assms(5) by (simp only: mult.commute)
  finally show ?thesis .
qed

lemma rnd64_0: "rnd64 0 = 0"
  by (simp add: rnd64_def round_half_even_def)

lemma max_float64_ge: "2 powi 1023 \<le> max_float64"
proof -
  have "(1::real) \<le> 2 - 2 powi (-52)" by (simp add: power_int_minus field_simps)
  then have "1 * 2 powi 1023 \<le> (2 - 2 powi (-52)) * (2::real) powi 1023"
    by (intro mult_right_mono) simp_all
  then show ?thesis by (simp add: max_float64_def)
qed

lemma max_float64_less: "max_float64 < 2 powi 1024"
proof -
  have "(2 - 2 powi (-52)) * (2::real) powi 1023 < 2 * 2 powi 1023"
    by (intro mult_strict_right_mono) simp_all
  also have "\<dots> = 2 powi (1 + 1023)" by (subst power_int_add) simp_all
  finally show ?thesis by (simp add: max_float64_def)
qed

lemma fl_exact:
  assumes "-1022 \<le> k" and "k \<le> 1022" and "2 powi k \<le> \<bar>x\<bar>" and "\<bar>x\<bar> < 2 powi (k + 1)"
    and "x / 2 powi (k - 52) \<in> \<int>"
  shows "fl neg x = Fin x"
proof -
  from assms(5) obtain m where m: "x / 2 powi (k - 52) = of_int m" by (rule Ints_cases)
  then have x: "x = of_int m * 2 powi (k - 52)" by (simp add: field_simps)
  have k: "k \<le> 1023" using assms(2) by simp
  have r: "rnd64 x = x"
    using assms(1) k assms(4) _ x by (rule rnd64_exact) (simp add: assms(3))
  have "(0::real) < 2 powi k" by simp
  with assms(3) have "0 < \<bar>x\<bar>" by linarith
  then have nz: "x \<noteq> 0" by simp
  have "(2::real) powi (k + 1) \<le> 2 powi 1023"
    using assms(2) by (intro power_int_increasing) simp_all
  with assms(4) max_float64_ge have "\<bar>x\<bar> \<le> max_float64" by linarith
  with nz show ?thesis by (simp add: fl_def r)
qed

lemma fl_zero: "fl neg 0 = signed_zero neg"
  using max_float64_ge by (simp add: fl_def rnd64_0)

lemma rnd64_overflow:
  assumes "2 powi 1024 \<le> \<bar>r\<bar>"
  shows "2 powi 1024 \<le> \<bar>rnd64 r\<bar>"
proof -
  have e: "float_exponent r = 1024"
  proof -
    from float_exponent_cases [of r] show ?thesis
    proof
      assume "float_exponent r = 1024 \<and> 2 powi 1024 \<le> \<bar>r\<bar>"
      then show ?thesis by simp
    next
      assume a: "-1022 \<le> float_exponent r \<and> float_exponent r \<le> 1023
        \<and> \<bar>r\<bar> < 2 powi (float_exponent r + 1)
        \<and> (float_exponent r = -1022 \<or> 2 powi float_exponent r \<le> \<bar>r\<bar>)"
      then have "(2::real) powi (float_exponent r + 1) \<le> 2 powi 1024"
        by (intro power_int_increasing) simp_all
      with a assms show ?thesis by linarith
    qed
  qed
  have q: "quantum r = 2 powi 972" by (simp add: quantum_def e)
  have split: "(2::real) powi 1024 = 2 powi 972 * of_int (2 ^ 52)"
  proof -
    have "(2::real) powi (972 + 52) = 2 powi 972 * 2 powi 52" by (subst power_int_add) simp_all
    then show ?thesis by simp
  qed
  have qp: "(0::real) < 2 powi 972" by simp
  show ?thesis
  proof (cases "0 \<le> r")
    case True
    with assms have "2 powi 972 * of_int (2 ^ 52) \<le> r" by (simp add: split)
    then have "of_int (2 ^ 52) \<le> r / 2 powi 972"
      using qp by (simp add: field_simps)
    then have "2 ^ 52 \<le> round_half_even (r / 2 powi 972)" by (rule round_half_even_ge)
    then have "(of_int (2 ^ 52) :: real) \<le> of_int (round_half_even (r / 2 powi 972))"
      by (simp only: of_int_le_iff)
    then have "2 powi 972 * (of_int (2 ^ 52) :: real) \<le> 2 powi 972 * of_int (round_half_even (r / 2 powi 972))"
      using qp by (intro mult_left_mono) simp_all
    then have "2 powi 1024 \<le> rnd64 r" by (simp only: split rnd64_def q)
    then show ?thesis by linarith
  next
    case False
    with assms have "r \<le> - (2 powi 972 * of_int (2 ^ 52))" by (simp add: split)
    then have "r / 2 powi 972 \<le> of_int (- (2 ^ 52))"
      using qp by (simp add: field_simps)
    then have "round_half_even (r / 2 powi 972) \<le> - (2 ^ 52)" by (rule round_half_even_le)
    then have "(of_int (round_half_even (r / 2 powi 972)) :: real) \<le> of_int (- (2 ^ 52))"
      by (simp only: of_int_le_iff)
    then have "2 powi 972 * (of_int (round_half_even (r / 2 powi 972)) :: real) \<le> 2 powi 972 * of_int (- (2 ^ 52))"
      using qp by (intro mult_left_mono) simp_all
    then have "rnd64 r \<le> - (2 powi 1024)" by (simp only: split rnd64_def q)
    then show ?thesis by linarith
  qed
qed

lemma fl_overflow: "2 powi 1024 \<le> \<bar>r\<bar> \<Longrightarrow> fl neg r = signed_inf neg"
  using rnd64_overflow [of r] max_float64_less by (simp add: fl_def)

lemma rnd64_eval:
  assumes "-1022 \<le> k" and "k \<le> 1023" and "\<bar>x\<bar> < 2 powi (k + 1)"
    and "k = -1022 \<or> 2 powi k \<le> \<bar>x\<bar>"
    and "round_half_even (x / 2 powi (k - 52)) = m"
  shows "rnd64 x = 2 powi (k - 52) * of_int m"
  using float_exponent_eq [OF assms(1-4)] assms(5) by (simp add: rnd64_def quantum_def)

lemma max_float64_eq: "max_float64 = 9007199254740991 * 2 powi 971"
proof -
  have "(2::real) powi 1023 = 2 powi (52 + 971)" by simp
  also have "\<dots> = 2 powi 52 * 2 powi 971" by (subst power_int_add) simp_all
  finally have "max_float64 = ((2 - 2 powi (-52)) * 2 powi 52) * 2 powi 971"
    by (simp add: max_float64_def)
  moreover have "(2 - 2 powi (-52)) * 2 powi 52 = (9007199254740991::real)"
    by (simp add: power_int_minus field_simps)
  ultimately show ?thesis by simp
qed

lemma third_of_max: "rnd64 (max_float64 / 3) = 6004799503160661 * 2 powi 970"
proof -
  have x: "max_float64 / 3 = (18014398509481982 / 3) * 2 powi 970"
  proof -
    have "(2::real) powi 971 = 2 powi (1 + 970)" by simp
    also have "\<dots> = 2 * 2 powi 970" by (subst power_int_add) simp_all
    finally show ?thesis by (simp add: max_float64_eq)
  qed
  have p: "(2::real) powi 1022 = 4503599627370496 * 2 powi 970"
    "(2::real) powi 1023 = 9007199254740992 * 2 powi 970"
  proof -
    have "(2::real) powi 1022 = 2 powi (52 + 970)" by simp
    also have "\<dots> = 2 powi 52 * 2 powi 970" by (subst power_int_add) simp_all
    finally show "(2::real) powi 1022 = 4503599627370496 * 2 powi 970" by simp
    have "(2::real) powi 1023 = 2 powi (53 + 970)" by simp
    also have "\<dots> = 2 powi 53 * 2 powi 970" by (subst power_int_add) simp_all
    finally show "(2::real) powi 1023 = 9007199254740992 * 2 powi 970" by simp
  qed
  have pos: "(0::real) < 2 powi 970" by simp
  have r: "round_half_even (max_float64 / 3 / 2 powi (1022 - 52)) = 6004799503160661"
  proof -
    have d: "max_float64 / 3 / 2 powi (1022 - 52) = (18014398509481982 / 3 :: real)"
      by (simp add: x)
    have "round_half_even (18014398509481982 / 3) = 6004799503160661"
      by (simp add: round_half_even_def Let_def)
    then show ?thesis by (simp only: d)
  qed
  have "rnd64 (max_float64 / 3) = 2 powi (1022 - 52) * of_int 6004799503160661"
  proof (rule rnd64_eval [OF _ _ _ _ r])
    show "\<bar>max_float64 / 3\<bar> < 2 powi (1022 + 1)"
      using pos by (simp add: x p)
    show "1022 = -1022 \<or> 2 powi 1022 \<le> \<bar>max_float64 / 3\<bar>"
      using pos by (simp add: x p)
  qed simp_all
  then show ?thesis by simp
qed

lemma three_thirds_of_max: "fl False (3 * (6004799503160661 * 2 powi 970)) = PInf"
proof -
  let ?x = "3 * (6004799503160661 * 2 powi 970) :: real"
  have x: "?x = (18014398509481983 / 2) * 2 powi 971"
  proof -
    have "(2::real) powi 971 = 2 powi (1 + 970)" by simp
    also have "\<dots> = 2 * 2 powi 970" by (subst power_int_add) simp_all
    finally show ?thesis by simp
  qed
  have p: "(2::real) powi 1023 = 4503599627370496 * 2 powi 971"
    "(2::real) powi 1024 = 9007199254740992 * 2 powi 971"
  proof -
    have "(2::real) powi 1023 = 2 powi (52 + 971)" by simp
    also have "\<dots> = 2 powi 52 * 2 powi 971" by (subst power_int_add) simp_all
    finally show "(2::real) powi 1023 = 4503599627370496 * 2 powi 971" by simp
    have "(2::real) powi 1024 = 2 powi (53 + 971)" by simp
    also have "\<dots> = 2 powi 53 * 2 powi 971" by (subst power_int_add) simp_all
    finally show "(2::real) powi 1024 = 9007199254740992 * 2 powi 971" by simp
  qed
  have pos: "(0::real) < 2 powi 971" by simp
  have r: "round_half_even (?x / 2 powi (1023 - 52)) = 9007199254740992"
  proof -
    have d: "?x / 2 powi (1023 - 52) = (18014398509481983 / 2 :: real)"
      by (simp only: x) simp
    have "round_half_even (18014398509481983 / 2) = 9007199254740992"
      by (simp add: round_half_even_def Let_def)
    then show ?thesis by (simp only: d)
  qed
  have "rnd64 ?x = 2 powi (1023 - 52) * of_int 9007199254740992"
  proof (rule rnd64_eval [OF _ _ _ _ r])
    show "\<bar>?x\<bar> < 2 powi (1023 + 1)"
      using pos by (simp only: x) (simp add: p)
    show "1023 = -1022 \<or> 2 powi 1023 \<le> \<bar>?x\<bar>"
      using pos by (simp only: x) (simp add: p)
  qed simp_all
  then have "rnd64 ?x = 2 powi 1024" by (simp add: p)
  with max_float64_less show ?thesis by (simp add: fl_def signed_inf_def)
qed

subsection \<open>A scaling and its inverse\<close>

lemma real_of_fl: "is_finite (fl neg r) \<Longrightarrow> real_of (fl neg r) = rnd64 r"
  by (auto simp: fl_def Let_def signed_inf_def signed_zero_def split: if_splits)

lemma two_step_error:
  fixes s :: real
  assumes u: "0 \<le> u" and h: "0 \<le> h" and s: "s \<noteq> 0"
    and e1: "\<bar>y1 - x1\<bar> \<le> u * \<bar>x1\<bar> + h"
    and e2: "\<bar>y2 - x2\<bar> \<le> u * \<bar>x2\<bar> + h"
    and x1: "x1 = s * a"
    and x2: "x2 = y1 / s"
  shows "\<bar>y2 - a\<bar> \<le> (2 * u + u\<^sup>2) * \<bar>a\<bar> + (1 + u) * h * (1 / \<bar>s\<bar>) + h"
proof -
  have c: "0 < \<bar>s\<bar>" using s by simp
  have d: "x2 - a = (y1 - x1) / s"
    using s by (simp add: x1 x2 field_simps)
  have A: "\<bar>x2 - a\<bar> \<le> u * \<bar>a\<bar> + h / \<bar>s\<bar>"
  proof -
    have "\<bar>x2 - a\<bar> = \<bar>y1 - x1\<bar> / \<bar>s\<bar>" by (simp add: d abs_divide)
    also have "\<dots> \<le> (u * \<bar>x1\<bar> + h) / \<bar>s\<bar>" using c e1 by (simp add: divide_right_mono)
    also have "\<dots> = u * \<bar>a\<bar> + h / \<bar>s\<bar>" using c by (simp add: x1 abs_mult field_simps)
    finally show ?thesis .
  qed
  have B: "\<bar>x2\<bar> \<le> \<bar>a\<bar> + u * \<bar>a\<bar> + h / \<bar>s\<bar>"
    using A by linarith
  have "u * \<bar>x2\<bar> \<le> u * (\<bar>a\<bar> + u * \<bar>a\<bar> + h / \<bar>s\<bar>)"
    using B u by (rule mult_left_mono)
  with e2 have C: "\<bar>y2 - x2\<bar> \<le> u * (\<bar>a\<bar> + u * \<bar>a\<bar> + h / \<bar>s\<bar>) + h" by linarith
  have "\<bar>y2 - a\<bar> \<le> \<bar>y2 - x2\<bar> + \<bar>x2 - a\<bar>" by linarith
  with A C have "\<bar>y2 - a\<bar> \<le> u * (\<bar>a\<bar> + u * \<bar>a\<bar> + h / \<bar>s\<bar>) + h + (u * \<bar>a\<bar> + h / \<bar>s\<bar>)"
    by linarith
  also have "\<dots> = (2 * u + u\<^sup>2) * \<bar>a\<bar> + (1 + u) * h * (1 / \<bar>s\<bar>) + h"
    by (simp add: algebra_simps power2_eq_square)
  finally show ?thesis .
qed

lemma roundoff_nonneg: "0 \<le> unit_roundoff" "0 \<le> underflow_unit"
  by (simp_all add: unit_roundoff_def underflow_unit_def)

lemma mul_div_finite:
  assumes "s \<noteq> 0" and "is_finite x"
    and "is_finite (np_mul (Fin s) x)"
    and "is_finite (np_div (np_mul (Fin s) x) (Fin s))"
  shows "\<bar>real_of (np_div (np_mul (Fin s) x) (Fin s)) - real_of x\<bar>
           \<le> round_trip_tolerance (1 / \<bar>s\<bar>) (real_of x)"
proof -
  let ?neg = "sign_bit (Fin s) \<noteq> sign_bit x"
  let ?p = "np_mul (Fin s) x"
  have x: "x \<noteq> NaN" "\<not> is_inf x" using assms(2) by (cases x; simp)+
  have p: "?p = fl ?neg (s * real_of x)"
    using x by (simp add: np_mul_def)
  have rp: "real_of ?p = rnd64 (s * real_of x)"
    using assms(3) unfolding p by (rule real_of_fl)
  have pn: "?p \<noteq> NaN" "\<not> is_inf ?p" using assms(3) by (cases ?p; simp)+
  have q: "np_div ?p (Fin s) = fl (sign_bit ?p \<noteq> sign_bit (Fin s)) (real_of ?p / s)"
    using pn assms(1) by (simp add: np_div_def)
  have rq: "real_of (np_div ?p (Fin s)) = rnd64 (rnd64 (s * real_of x) / s)"
    using assms(4) unfolding q rp by (rule real_of_fl)
  show ?thesis
    unfolding rq round_trip_tolerance_def
    by (rule two_step_error [OF roundoff_nonneg assms(1) rnd64_error rnd64_error refl refl])
qed

lemma div_mul_finite:
  assumes "s \<noteq> 0" and "is_finite x"
    and "is_finite (np_div x (Fin s))"
    and "is_finite (np_mul (Fin s) (np_div x (Fin s)))"
  shows "\<bar>real_of (np_mul (Fin s) (np_div x (Fin s))) - real_of x\<bar>
           \<le> round_trip_tolerance \<bar>s\<bar> (real_of x)"
proof -
  let ?p = "np_div x (Fin s)"
  have x: "x \<noteq> NaN" "\<not> is_inf x" using assms(2) by (cases x; simp)+
  have p: "?p = fl (sign_bit x \<noteq> sign_bit (Fin s)) (real_of x / s)"
    using x assms(1) by (simp add: np_div_def)
  have rp: "real_of ?p = rnd64 (real_of x / s)"
    using assms(3) unfolding p by (rule real_of_fl)
  have pn: "?p \<noteq> NaN" "\<not> is_inf ?p" using assms(3) by (cases ?p; simp)+
  have q: "np_mul (Fin s) ?p = fl (sign_bit (Fin s) \<noteq> sign_bit ?p) (s * real_of ?p)"
    using pn by (simp add: np_mul_def)
  have rq: "real_of (np_mul (Fin s) ?p) = rnd64 (s * rnd64 (real_of x / s))"
    using assms(4) unfolding q rp by (rule real_of_fl)
  have s': "1 / s \<noteq> 0" using assms(1) by simp
  have "\<bar>rnd64 (s * rnd64 (real_of x / s)) - real_of x\<bar>
          \<le> (2 * unit_roundoff + unit_roundoff\<^sup>2) * \<bar>real_of x\<bar>
             + (1 + unit_roundoff) * underflow_unit * (1 / \<bar>1 / s\<bar>) + underflow_unit"
  proof (rule two_step_error [OF roundoff_nonneg s' rnd64_error rnd64_error])
    show "real_of x / s = 1 / s * real_of x" by simp
    show "s * rnd64 (real_of x / s) = rnd64 (real_of x / s) / (1 / s)" by simp
  qed
  then show ?thesis
    unfolding rq round_trip_tolerance_def by (simp add: abs_divide)
qed

lemma mul_div_not_finite:
  assumes "s \<noteq> 0" and "\<not> is_finite x"
  shows "np_div (np_mul (Fin s) x) (Fin s) = x"
  using assms by (cases x) (auto simp: np_mul_def np_div_def signed_inf_def Let_def)

lemma div_mul_not_finite:
  assumes "s \<noteq> 0" and "\<not> is_finite x"
  shows "np_mul (Fin s) (np_div x (Fin s)) = x"
  using assms by (cases x) (auto simp: np_mul_def np_div_def signed_inf_def Let_def)

lemma mul_div_ok:
  "s \<noteq> 0 \<Longrightarrow> round_trip_ok (1 / \<bar>s\<bar>) x (np_mul (Fin s) x) (np_div (np_mul (Fin s) x) (Fin s))"
  by (simp add: round_trip_ok_def mul_div_finite mul_div_not_finite)

lemma div_mul_ok:
  "s \<noteq> 0 \<Longrightarrow> round_trip_ok \<bar>s\<bar> x (np_div x (Fin s)) (np_mul (Fin s) (np_div x (Fin s)))"
  by (simp add: round_trip_ok_def div_mul_finite div_mul_not_finite)

subsection \<open>Values that the scenarios use\<close>

lemma fl_values:
  "fl neg 1 = Fin 1" "fl neg 2 = Fin 2" "fl neg 3 = Fin 3" "fl neg 4 = Fin 4"
  "fl neg 5 = Fin 5" "fl neg 6 = Fin 6" "fl neg 7 = Fin 7" "fl neg 8 = Fin 8"
  "fl neg (3/2) = Fin (3/2)"
          apply (rule fl_exact [where k = 0]; simp)
         apply (rule fl_exact [where k = 1]; simp)
        apply (rule fl_exact [where k = 1]; simp)
       apply (rule fl_exact [where k = 2]; simp)
      apply (rule fl_exact [where k = 2]; simp)
     apply (rule fl_exact [where k = 2]; simp)
    apply (rule fl_exact [where k = 2]; simp)
   apply (rule fl_exact [where k = 3]; simp)
  apply (rule fl_exact [where k = 0]; simp)
  done

section \<open>Properties of \<open>Array\<close>\<close>

subsection \<open>What the calls leave in the store\<close>

lemma with_std_data_success:
  assumes "length (flat d) = prod_list (shape (h ! value_ref self))"
  shows "with_std_data self d det h =
           (None, self\<lparr>value_ref := length h\<rparr>,
            h @ [\<lparr>shape = shape (h ! value_ref self), flat = map (np_mul (sigma self)) (flat d)\<rparr>])"
  using assms by (simp add: with_std_data_def np_reshape_def np_scalar_mul_def alloc_def)

lemma to_std_data_fresh:
  "to_std_data (self\<lparr>value_ref := length h\<rparr>) (h @ [a]) =
     \<lparr>shape = [length (flat a)], flat = map (\<lambda>x. np_div x (sigma self)) (flat a)\<rparr>"
  by (simp add: to_std_data_def np_div_scalar_def np_ravel_def)

lemma shape_to_std_data: "shape (to_std_data p h) = [length (flat (h ! value_ref p))]"
  by (simp add: to_std_data_def np_ravel_def np_div_scalar_def)

lemma length_flat_to_std_data: "length (flat (to_std_data p h)) = length (flat (h ! value_ref p))"
  by (simp add: to_std_data_def np_ravel_def np_div_scalar_def)

lemma with_std_data_keeps_store:
  "r < length h \<Longrightarrow> heap_after (with_std_data self d det h) ! r = h ! r"
  by (simp add: with_std_data_def heap_after_def alloc_def nth_append split: sum.splits)

lemma recombine_keeps_store:
  "r < length h \<Longrightarrow> heap_after (recombine self others h) ! r = h ! r"
proof -
  assume r: "r < length h"
  show ?thesis
  proof (cases "recombination self = ''average''")
    case False
    then show ?thesis by (simp add: recombine_def heap_after_def)
  next
    case True
    show ?thesis
    proof (cases "np_mean_axis0 (map (\<lambda>p. to_std_data p h) (self # others))")
      case (Inl e)
      with True show ?thesis by (simp add: recombine_def heap_after_def)
    next
      case (Inr m)
      with True have "recombine self others h = with_std_data self m True h"
        by (simp add: recombine_def)
      with r show ?thesis by (simp add: with_std_data_keeps_store)
    qed
  qed
qed

lemma spawn_child_eq:
  "spawn_child self h = (self, h @ [np_zeros (shape_arg self)])"
  by (simp add: spawn_child_def Parameter_spawn_child_def Array_init_def alloc_def)

subsection \<open>\<open>np.mean\<close> on rows of one length\<close>

lemma length_foldl_vec_add:
  "list_all (\<lambda>ys. length ys = length xs) yss \<Longrightarrow> length (foldl vec_add xs yss) = length xs"
  by (induction yss arbitrary: xs) (simp_all add: vec_add_def list_all_iff)

lemma np_mean_axis0_same_length:
  assumes "list_all (\<lambda>q. shape q = shape r \<and> length (flat q) = length (flat r)) rs"
  shows "\<exists>m. np_mean_axis0 (r # rs) = Inr m \<and> shape m = shape r \<and> length (flat m) = length (flat r)"
proof -
  have 1: "list_all (\<lambda>q. shape q = shape r) rs"
    using assms by (simp add: list_all_iff)
  have 2: "list_all (\<lambda>ys. length ys = length (flat r)) (map flat rs)"
    using assms by (simp add: list_all_iff)
  show ?thesis
    using 1 length_foldl_vec_add [OF 2] by (simp add: np_mean_axis0_def)
qed

subsection \<open>The scenarios, evaluated\<close>

lemma array_set_to_vec3: "array_set_to [3] (Fin 2) (vec3 2 4 6) =
   (\<lparr>shape_arg = [3], sigma = Fin 2, distribution = ''linear'', recombination = ''average'',
     value_ref = 1\<rparr>,
    [np_zeros [3], vec3 2 4 6])"
  by (simp add: array_set_to_def Array_init_def alloc_def Array_set_value_def np_zeros_def vec3_def)

lemma array_set_to_vec1: "array_set_to [1] sg (vec1 x) =
   (\<lparr>shape_arg = [1], sigma = sg, distribution = ''linear'', recombination = ''average'',
     value_ref = 1\<rparr>,
    [np_zeros [1], vec1 x])"
  by (simp add: array_set_to_def Array_init_def alloc_def Array_set_value_def np_zeros_def vec1_def)

lemma fresh_parent_eq: "fresh_parent =
   (\<lparr>shape_arg = [1], sigma = Fin 1, distribution = ''linear'', recombination = ''average'',
     value_ref = 0\<rparr>, [vec1 (Fin 0)])"
  by (simp add: fresh_parent_def Array_init_def alloc_def np_zeros_def vec1_def)

lemma fresh_child_eq: "fresh_child =
   (\<lparr>shape_arg = [1], sigma = Fin 1, distribution = ''linear'', recombination = ''average'',
     value_ref = 0\<rparr>, [vec1 (Fin 0), vec1 (Fin 0)])"
  by (simp add: fresh_child_def fresh_parent_eq spawn_child_eq np_zeros_def vec1_def)

lemma largest_array_eq: "largest_array =
   (\<lparr>shape_arg = [1], sigma = Fin 3, distribution = ''linear'', recombination = ''average'',
     value_ref = 1\<rparr>,
    [np_zeros [1], vec1 (Fin max_float64)])"
  unfolding largest_array_def by (rule array_set_to_vec1)

subsection \<open>Arithmetic of the overflow scenarios\<close>

lemma max_float64_pos: "0 < max_float64"
  using max_float64_ge by (smt (verit) zero_less_power_int)

lemma third_of_max_float64_pos: "0 < third_of_max_float64"
  by (simp add: third_of_max_float64_def)

lemma third_of_max_float64_range:
  "2 powi 1022 \<le> third_of_max_float64" "third_of_max_float64 < 2 powi 1023"
proof -
  have "(2::real) powi 1022 = 2 powi (52 + 970)" by simp
  also have "\<dots> = 2 powi 52 * 2 powi 970" by (subst power_int_add) simp_all
  finally have a: "(2::real) powi 1022 = 4503599627370496 * 2 powi 970" by simp
  have "(2::real) powi 1023 = 2 powi (53 + 970)" by simp
  also have "\<dots> = 2 powi 53 * 2 powi 970" by (subst power_int_add) simp_all
  finally have b: "(2::real) powi 1023 = 9007199254740992 * 2 powi 970" by simp
  have pos: "(0::real) < 2 powi 970" by simp
  show "2 powi 1022 \<le> third_of_max_float64"
    unfolding a third_of_max_float64_def using pos by (intro mult_right_mono) simp_all
  show "third_of_max_float64 < 2 powi 1023"
    unfolding b third_of_max_float64_def using pos by (intro mult_strict_right_mono) simp_all
qed

lemma np_div_max_3: "np_div (Fin max_float64) (Fin 3) = Fin third_of_max_float64"
proof -
  have r: "rnd64 (max_float64 / 3) = third_of_max_float64"
    by (simp only: third_of_max third_of_max_float64_def)
  have le: "third_of_max_float64 \<le> max_float64"
    using third_of_max_float64_range(2) max_float64_ge by linarith
  have "fl False (max_float64 / 3) = Fin third_of_max_float64"
    using le third_of_max_float64_pos by (simp add: fl_def r)
  then show ?thesis
    using max_float64_pos by (simp add: np_div_def)
qed

lemma fl_third_of_max_float64: "fl neg third_of_max_float64 = Fin third_of_max_float64"
proof (rule fl_exact [where k = 1022])
  show "2 powi 1022 \<le> \<bar>third_of_max_float64\<bar>"
    using third_of_max_float64_range(1) third_of_max_float64_pos by simp
  show "\<bar>third_of_max_float64\<bar> < 2 powi (1022 + 1)"
    using third_of_max_float64_range(2) third_of_max_float64_pos by simp
  have "third_of_max_float64 / 2 powi (1022 - 52) = of_int 6004799503160661"
    by (simp add: third_of_max_float64_def)
  then show "third_of_max_float64 / 2 powi (1022 - 52) \<in> \<int>"
    by (simp only: Ints_of_int)
qed simp_all

lemma np_div_third_1: "np_div (Fin third_of_max_float64) (Fin 1) = Fin third_of_max_float64"
  using third_of_max_float64_pos by (simp add: np_div_def fl_third_of_max_float64)

lemma np_mul_3_third: "np_mul (Fin 3) (Fin third_of_max_float64) = PInf"
  using third_of_max_float64_pos three_thirds_of_max
  by (simp add: np_mul_def third_of_max_float64_def)

lemma np_mul_overflow: "np_mul (Fin (2 powi 1023)) (Fin 4) = PInf"
proof -
  have "(2::real) powi 1024 = 2 powi (1023 + 1)" by simp
  also have "\<dots> = 2 powi 1023 * 2" by (subst power_int_add) simp_all
  finally have "(2::real) powi 1024 \<le> \<bar>2 powi 1023 * 4\<bar>" by simp
  then have "fl False (2 powi 1023 * 4) = PInf"
    by (simp only: fl_overflow signed_inf_def if_False)
  moreover have "\<not> ((2::real) powi 1023 < 0)" by (simp add: not_less)
  ultimately show ?thesis by (simp add: np_mul_def del: power_int_numeral)
qed

lemma np_div_inf: "np_div PInf (Fin (2 powi 1023)) = PInf" "np_div PInf (Fin 3) = PInf"
proof -
  have "\<not> ((2::real) powi 1023 < 0)" by (simp add: not_less)
  then show "np_div PInf (Fin (2 powi 1023)) = PInf"
    by (simp add: np_div_def signed_inf_def del: power_int_numeral)
  show "np_div PInf (Fin 3) = PInf"
    by (simp add: np_div_def signed_inf_def)
qed

subsection \<open>The claims\<close>

text \<open>
  C10. For every Array and every flat vector, \<open>with_std_data\<close> gives the same result
  whether \<open>deterministic\<close> is True or False.
\<close>

theorem with_std_data_deterministic_irrelevant:
  "with_std_data self d True h = with_std_data self d False h"
  by (simp add: with_std_data_def)

text \<open>
  C1, as amended. For an Array whose \<open>sigma\<close> is finite and not zero, and a flat vector
  \<open>d\<close> with as many elements as the Array's value: \<open>with_std_data(d)\<close> succeeds and
  \<open>to_std_data()\<close> then returns a flat vector as long as \<open>d\<close> that is \<open>d\<close> modulo
  floating-point tolerance: an element is within \<open>round_trip_tolerance (1 / |sigma|)\<close>
  of the element of \<open>d\<close> unless the product by \<open>sigma\<close> or the quotient overflowed, and
  an infinity or \<open>nan\<close> of \<open>d\<close> comes back as it is. In the same sense
  \<open>with_std_data(to_std_data())\<close> succeeds and leaves the value unchanged, with the
  tolerance \<open>round_trip_tolerance |sigma|\<close>.
\<close>

theorem std_data_round_trip:
  assumes "sigma self = Fin s" and "s \<noteq> 0" and "valid self h"
    and "shape d = [length (flat d)]"
    and "length (flat d) = prod_list (shape (stored self h))"
  shows "fst (with_std_data self d det h) = None
       \<and> shape (to_std_data (array_after (with_std_data self d det h))
                             (heap_after (with_std_data self d det h))) = shape d
       \<and> (\<forall>i < length (flat d).
             round_trip_ok (1 / \<bar>s\<bar>) (flat d ! i)
               (flat (stored (array_after (with_std_data self d det h))
                             (heap_after (with_std_data self d det h))) ! i)
               (flat (to_std_data (array_after (with_std_data self d det h))
                                  (heap_after (with_std_data self d det h))) ! i))
       \<and> fst (with_std_data self (to_std_data self h) det h) = None
       \<and> shape (stored (array_after (with_std_data self (to_std_data self h) det h))
                        (heap_after (with_std_data self (to_std_data self h) det h)))
           = shape (stored self h)
       \<and> (\<forall>i < length (flat (stored self h)).
             round_trip_ok \<bar>s\<bar> (flat (stored self h) ! i)
               (flat (to_std_data self h) ! i)
               (flat (stored (array_after (with_std_data self (to_std_data self h) det h))
                             (heap_after (with_std_data self (to_std_data self h) det h))) ! i))"
proof -
  have len_d: "length (flat d) = prod_list (shape (h ! value_ref self))"
    using assms(5) by (simp add: stored_def)
  note w = with_std_data_success [OF len_d, of det]
  have 1: "fst (with_std_data self d det h) = None
       \<and> shape (to_std_data (array_after (with_std_data self d det h))
                             (heap_after (with_std_data self d det h))) = shape d"
    using assms(4) by (simp add: w array_after_def heap_after_def to_std_data_fresh)
  have 2: "round_trip_ok (1 / \<bar>s\<bar>) (flat d ! i)
               (flat (stored (array_after (with_std_data self d det h))
                             (heap_after (with_std_data self d det h))) ! i)
               (flat (to_std_data (array_after (with_std_data self d det h))
                                  (heap_after (with_std_data self d det h))) ! i)"
    if "i < length (flat d)" for i
    using that assms(1) mul_div_ok [OF assms(2), of "flat d ! i"]
    by (simp add: w array_after_def heap_after_def to_std_data_fresh stored_def)
  have len: "length (flat (to_std_data self h)) = prod_list (shape (h ! value_ref self))"
    using assms(3) by (simp add: length_flat_to_std_data valid_def wf_ndarray_def)
  note w2 = with_std_data_success [OF len, of det]
  have fl: "flat (to_std_data self h) = map (\<lambda>x. np_div x (Fin s)) (flat (h ! value_ref self))"
    using assms(1) by (simp add: to_std_data_def np_div_scalar_def np_ravel_def)
  have 3: "fst (with_std_data self (to_std_data self h) det h) = None
       \<and> shape (stored (array_after (with_std_data self (to_std_data self h) det h))
                        (heap_after (with_std_data self (to_std_data self h) det h)))
           = shape (stored self h)"
    by (simp add: w2 array_after_def heap_after_def stored_def)
  have 4: "round_trip_ok \<bar>s\<bar> (flat (stored self h) ! i)
               (flat (to_std_data self h) ! i)
               (flat (stored (array_after (with_std_data self (to_std_data self h) det h))
                             (heap_after (with_std_data self (to_std_data self h) det h))) ! i)"
    if "i < length (flat (stored self h))" for i
    using that assms(1) div_mul_ok [OF assms(2), of "flat (h ! value_ref self) ! i"]
    by (simp add: w2 array_after_def heap_after_def stored_def fl)
  from 1 2 3 4 show ?thesis by blast
qed

theorem std_data_round_trip_witness:
  "sigma two_first = Fin 2 \<and> (2::real) \<noteq> 0 \<and> valid two_first two_heap
   \<and> shape (vec3 1 2 3) = [length (flat (vec3 1 2 3))]
   \<and> length (flat (vec3 1 2 3)) = prod_list (shape (stored two_first two_heap))
   \<and> fst (with_std_data two_first (vec3 1 2 3) True two_heap) = None
   \<and> stored (array_after (with_std_data two_first (vec3 1 2 3) True two_heap))
             (heap_after (with_std_data two_first (vec3 1 2 3) True two_heap)) = vec3 2 4 6
   \<and> to_std_data (array_after (with_std_data two_first (vec3 1 2 3) True two_heap))
                  (heap_after (with_std_data two_first (vec3 1 2 3) True two_heap)) = vec3 1 2 3
   \<and> \<bar>real_of (flat (to_std_data (array_after (with_std_data two_first (vec3 1 2 3) True two_heap))
                                   (heap_after (with_std_data two_first (vec3 1 2 3) True two_heap))) ! 2)
        - real_of (flat (vec3 1 2 3) ! 2)\<bar>
       \<le> round_trip_tolerance (1 / \<bar>2\<bar>) (real_of (flat (vec3 1 2 3) ! 2))"
proof -
  have h: "sigma two_first = Fin 2" "(2::real) \<noteq> 0" "valid two_first two_heap"
    "shape (vec3 1 2 3) = [length (flat (vec3 1 2 3))]"
    "length (flat (vec3 1 2 3)) = prod_list (shape (stored two_first two_heap))"
    by (simp_all add: two_first_def two_heap_def valid_def wf_ndarray_def vec3_def stored_def)
  have p: "stored (array_after (with_std_data two_first (vec3 1 2 3) True two_heap))
             (heap_after (with_std_data two_first (vec3 1 2 3) True two_heap)) = vec3 2 4 6"
    by (simp add: two_first_def two_heap_def vec3_def with_std_data_def np_reshape_def
        np_scalar_mul_def alloc_def stored_def
        array_after_def heap_after_def np_mul_def fl_values Let_def)
  have e: "to_std_data (array_after (with_std_data two_first (vec3 1 2 3) True two_heap))
                  (heap_after (with_std_data two_first (vec3 1 2 3) True two_heap)) = vec3 1 2 3"
    by (simp add: two_first_def two_heap_def vec3_def with_std_data_def np_reshape_def
        np_scalar_mul_def alloc_def to_std_data_def np_div_scalar_def np_ravel_def
        array_after_def heap_after_def np_mul_def np_div_def fl_values Let_def)
  have l: "(2::nat) < length (flat (vec3 1 2 3))" by (simp add: vec3_def)
  from std_data_round_trip [OF h, of True] l have
    "round_trip_ok (1 / \<bar>2\<bar>) (flat (vec3 1 2 3) ! 2)
        (flat (stored (array_after (with_std_data two_first (vec3 1 2 3) True two_heap))
                      (heap_after (with_std_data two_first (vec3 1 2 3) True two_heap))) ! 2)
        (flat (to_std_data (array_after (with_std_data two_first (vec3 1 2 3) True two_heap))
                           (heap_after (with_std_data two_first (vec3 1 2 3) True two_heap))) ! 2)"
    by blast
  moreover have "is_finite (flat (vec3 1 2 3) ! 2)" "is_finite (flat (vec3 2 4 6) ! 2)"
    by (simp_all add: vec3_def)
  ultimately have t: "\<bar>real_of (flat (to_std_data (array_after (with_std_data two_first (vec3 1 2 3) True two_heap))
                                   (heap_after (with_std_data two_first (vec3 1 2 3) True two_heap))) ! 2)
        - real_of (flat (vec3 1 2 3) ! 2)\<bar>
       \<le> round_trip_tolerance (1 / \<bar>2\<bar>) (real_of (flat (vec3 1 2 3) ! 2))"
    unfolding round_trip_ok_def p e by simp
  from std_data_round_trip [OF h, of True] have
    "fst (with_std_data two_first (vec3 1 2 3) True two_heap) = None" by blast
  with h p e t show ?thesis by (intro conjI)
qed

text \<open>
  C1 as stated fails when \<open>sigma\<close> is zero: \<open>Array(shape=(1,), sigma=0.0)\<close> takes
  \<open>with_std_data([1.])\<close> without an error, and \<open>to_std_data()\<close> then returns \<open>[nan]\<close>.
  It also fails by overflow: with \<open>sigma = 2 ^ 1023\<close>, \<open>with_std_data([4.])\<close> stores
  \<open>[inf]\<close> and \<open>to_std_data()\<close> returns \<open>[inf]\<close>.
\<close>

theorem std_data_round_trip_counterexample:
  "fst (with_std_data (fst (array_set_to [1] (Fin 0) (vec1 (Fin 0)))) (vec1 (Fin 1)) True
          (snd (array_set_to [1] (Fin 0) (vec1 (Fin 0))))) = None
   \<and> to_std_data
        (array_after (with_std_data (fst (array_set_to [1] (Fin 0) (vec1 (Fin 0)))) (vec1 (Fin 1)) True
          (snd (array_set_to [1] (Fin 0) (vec1 (Fin 0))))))
        (heap_after (with_std_data (fst (array_set_to [1] (Fin 0) (vec1 (Fin 0)))) (vec1 (Fin 1)) True
          (snd (array_set_to [1] (Fin 0) (vec1 (Fin 0))))))
      = vec1 NaN
   \<and> vec1 NaN \<noteq> vec1 (Fin 1)
   \<and> to_std_data
        (array_after (with_std_data (fst (array_set_to [1] (Fin (2 powi 1023)) (vec1 (Fin 0))))
          (vec1 (Fin 4)) True (snd (array_set_to [1] (Fin (2 powi 1023)) (vec1 (Fin 0))))))
        (heap_after (with_std_data (fst (array_set_to [1] (Fin (2 powi 1023)) (vec1 (Fin 0))))
          (vec1 (Fin 4)) True (snd (array_set_to [1] (Fin (2 powi 1023)) (vec1 (Fin 0))))))
      = vec1 PInf
   \<and> vec1 PInf \<noteq> vec1 (Fin 4)"
  unfolding array_set_to_vec1
  by (simp add: with_std_data_def np_reshape_def np_scalar_mul_def alloc_def np_zeros_def Let_def
      to_std_data_def np_div_scalar_def np_ravel_def vec1_def array_after_def heap_after_def
      np_mul_overflow np_div_inf del: power_int_numeral)
     (simp add: np_mul_def np_div_def fl_zero signed_zero_def)

text \<open>
  C4, as amended. \<open>Array(shape=(3,), sigma=2.0)\<close> set to \<open>[2, 4, 6]\<close> returns
  \<open>[1, 2, 3]\<close> from \<open>to_std_data()\<close>, and \<open>with_std_data([1, 2, 3])\<close> makes its value
  \<open>[2, 4, 6]\<close>.
\<close>

theorem scenario_std_data:
  "to_std_data (fst (array_set_to [3] (Fin 2) (vec3 2 4 6))) (snd (array_set_to [3] (Fin 2) (vec3 2 4 6)))
     = vec3 1 2 3
   \<and> fst (with_std_data (fst (array_set_to [3] (Fin 2) (vec3 2 4 6))) (vec3 1 2 3) True
             (snd (array_set_to [3] (Fin 2) (vec3 2 4 6)))) = None
   \<and> stored (array_after (with_std_data (fst (array_set_to [3] (Fin 2) (vec3 2 4 6))) (vec3 1 2 3) True
                          (snd (array_set_to [3] (Fin 2) (vec3 2 4 6)))))
             (heap_after (with_std_data (fst (array_set_to [3] (Fin 2) (vec3 2 4 6))) (vec3 1 2 3) True
                          (snd (array_set_to [3] (Fin 2) (vec3 2 4 6)))))
     = vec3 2 4 6"
  unfolding array_set_to_vec3
  by (simp add: to_std_data_def np_div_scalar_def np_ravel_def vec3_def stored_def array_after_def
      heap_after_def with_std_data_def np_reshape_def np_scalar_mul_def alloc_def np_zeros_def Let_def
      np_mul_def np_div_def fl_values)

text \<open>
  C4 as stated fails: the standardized data of that Array is not \<open>[1, 1, 3]\<close>, and
  \<open>with_std_data([1, 1, 3])\<close> makes its value \<open>[2, 2, 6]\<close>.
\<close>

theorem scenario_std_data_counterexample:
  "to_std_data (fst (array_set_to [3] (Fin 2) (vec3 2 4 6))) (snd (array_set_to [3] (Fin 2) (vec3 2 4 6)))
     \<noteq> vec3 1 1 3
   \<and> stored (array_after (with_std_data (fst (array_set_to [3] (Fin 2) (vec3 2 4 6))) (vec3 1 1 3) True
                          (snd (array_set_to [3] (Fin 2) (vec3 2 4 6)))))
             (heap_after (with_std_data (fst (array_set_to [3] (Fin 2) (vec3 2 4 6))) (vec3 1 1 3) True
                          (snd (array_set_to [3] (Fin 2) (vec3 2 4 6)))))
     = vec3 2 2 6
   \<and> vec3 2 2 6 \<noteq> vec3 2 4 6"
  unfolding array_set_to_vec3
  by (simp add: to_std_data_def np_div_scalar_def np_ravel_def vec3_def stored_def array_after_def
      heap_after_def with_std_data_def np_reshape_def np_scalar_mul_def alloc_def np_zeros_def Let_def
      np_mul_def np_div_def fl_values)

text \<open>
  C5, as amended. For an Array whose recombination policy is \<open>"average"\<close> and whose
  \<open>sigma\<close> is finite and not zero, and other Arrays of the same shape and \<open>sigma\<close>:
  \<open>recombine\<close> succeeds, \<open>np.mean\<close> along axis 0 of the standardized data that the
  Array and the others had before the call is a vector \<open>m\<close>, and afterwards the
  standardized data of the Array is \<open>m\<close> modulo floating-point tolerance: an element is
  within \<open>round_trip_tolerance (1 / |sigma|)\<close> of the element of \<open>m\<close> unless the
  product by \<open>sigma\<close> or the quotient overflowed, and an infinity or \<open>nan\<close> of \<open>m\<close>
  comes back as it is.
\<close>

theorem recombine_average:
  assumes "recombination self = ''average''"
    and "sigma self = Fin s" and "s \<noteq> 0"
    and "valid self h"
    and "list_all (\<lambda>p. valid p h \<and> sigma p = sigma self
                       \<and> shape (stored p h) = shape (stored self h)) others"
  shows "fst (recombine self others h) = None
       \<and> (case np_mean_axis0 (map (\<lambda>p. to_std_data p h) (self # others)) of
            Inl e \<Rightarrow> False
          | Inr m \<Rightarrow>
              shape (to_std_data (array_after (recombine self others h))
                                 (heap_after (recombine self others h))) = shape m
              \<and> (\<forall>i < length (flat m).
                    round_trip_ok (1 / \<bar>s\<bar>) (flat m ! i)
                      (flat (stored (array_after (recombine self others h))
                                    (heap_after (recombine self others h))) ! i)
                      (flat (to_std_data (array_after (recombine self others h))
                                         (heap_after (recombine self others h))) ! i)))"
proof -
  let ?rows = "map (\<lambda>p. to_std_data p h) others"
  have same: "length (flat (h ! value_ref p)) = length (flat (h ! value_ref self))"
    if "p \<in> set others" for p
  proof -
    from that assms(5) have "valid p h" "shape (stored p h) = shape (stored self h)"
      by (simp_all add: list_all_iff)
    with assms(4) show ?thesis by (simp add: valid_def wf_ndarray_def stored_def)
  qed
  have "list_all (\<lambda>q. shape q = shape (to_std_data self h)
                     \<and> length (flat q) = length (flat (to_std_data self h))) ?rows"
    using same by (simp add: list_all_iff shape_to_std_data length_flat_to_std_data)
  from np_mean_axis0_same_length [OF this]
  obtain m where m: "np_mean_axis0 (to_std_data self h # ?rows) = Inr m"
    and sm: "shape m = [length (flat (h ! value_ref self))]"
    and lm: "length (flat m) = length (flat (h ! value_ref self))"
    by (auto simp: shape_to_std_data length_flat_to_std_data)
  have len: "length (flat m) = prod_list (shape (h ! value_ref self))"
    using assms(4) lm by (simp add: valid_def wf_ndarray_def)
  have r: "recombine self others h = with_std_data self m True h"
    using assms(1) m by (simp add: recombine_def)
  note w = with_std_data_success [OF len, of True]
  have 1: "fst (recombine self others h) = None
        \<and> shape (to_std_data (array_after (recombine self others h))
                                 (heap_after (recombine self others h))) = shape m"
    using sm lm by (simp add: r w array_after_def heap_after_def to_std_data_fresh)
  have 2: "round_trip_ok (1 / \<bar>s\<bar>) (flat m ! i)
                      (flat (stored (array_after (recombine self others h))
                                    (heap_after (recombine self others h))) ! i)
                      (flat (to_std_data (array_after (recombine self others h))
                                         (heap_after (recombine self others h))) ! i)"
    if "i < length (flat m)" for i
    using that assms(2) mul_div_ok [OF assms(3), of "flat m ! i"]
    by (simp add: r w array_after_def heap_after_def to_std_data_fresh stored_def)
  from 1 2 m show ?thesis by simp
qed

theorem recombine_average_witness:
  "recombination two_first = ''average'' \<and> sigma two_first = Fin 2 \<and> (2::real) \<noteq> 0
   \<and> valid two_first two_heap
   \<and> list_all (\<lambda>p. valid p two_heap \<and> sigma p = sigma two_first
                    \<and> shape (stored p two_heap) = shape (stored two_first two_heap)) [two_second]
   \<and> fst (recombine two_first [two_second] two_heap) = None
   \<and> np_mean_axis0 (map (\<lambda>p. to_std_data p two_heap) [two_first, two_second])
       = Inr (vec3 (3/2) 3 4)
   \<and> stored (array_after (recombine two_first [two_second] two_heap))
             (heap_after (recombine two_first [two_second] two_heap)) = vec3 3 6 8
   \<and> to_std_data (array_after (recombine two_first [two_second] two_heap))
                  (heap_after (recombine two_first [two_second] two_heap)) = vec3 (3/2) 3 4
   \<and> \<bar>real_of (flat (to_std_data (array_after (recombine two_first [two_second] two_heap))
                                   (heap_after (recombine two_first [two_second] two_heap))) ! 2)
        - real_of (flat (vec3 (3/2) 3 4) ! 2)\<bar>
       \<le> round_trip_tolerance (1 / \<bar>2\<bar>) (real_of (flat (vec3 (3/2) 3 4) ! 2))"
proof -
  have h: "recombination two_first = ''average''" "sigma two_first = Fin 2" "(2::real) \<noteq> 0"
    "valid two_first two_heap"
    "list_all (\<lambda>p. valid p two_heap \<and> sigma p = sigma two_first
                    \<and> shape (stored p two_heap) = shape (stored two_first two_heap)) [two_second]"
    by (simp_all add: two_first_def two_second_def two_heap_def valid_def wf_ndarray_def vec3_def
        stored_def)
  have s: "to_std_data two_first two_heap = vec3 1 2 3"
    "to_std_data two_second two_heap = vec3 2 4 5"
    by (simp_all add: two_first_def two_second_def two_heap_def vec3_def to_std_data_def
        np_div_scalar_def np_ravel_def np_div_def fl_values)
  have m: "np_mean_axis0 [vec3 1 2 3, vec3 2 4 5] = Inr (vec3 (3/2) 3 4)"
    by (simp add: np_mean_axis0_def vec3_def vec_add_def np_add_def np_div_def fl_values)
  have m': "np_mean_axis0 (map (\<lambda>p. to_std_data p two_heap) [two_first, two_second])
       = Inr (vec3 (3/2) 3 4)"
    by (simp add: s m)
  have r: "recombine two_first [two_second] two_heap
            = with_std_data two_first (vec3 (3/2) 3 4) True two_heap"
    using m' by (simp add: recombine_def two_first_def)
  have p: "stored (array_after (recombine two_first [two_second] two_heap))
             (heap_after (recombine two_first [two_second] two_heap)) = vec3 3 6 8"
    unfolding r
    by (simp add: two_first_def two_heap_def vec3_def with_std_data_def np_reshape_def
        np_scalar_mul_def alloc_def stored_def array_after_def heap_after_def np_mul_def
        fl_values Let_def)
  have e: "to_std_data (array_after (recombine two_first [two_second] two_heap))
                  (heap_after (recombine two_first [two_second] two_heap)) = vec3 (3/2) 3 4"
    unfolding r
    by (simp add: two_first_def two_heap_def vec3_def with_std_data_def np_reshape_def
        np_scalar_mul_def alloc_def to_std_data_def np_div_scalar_def np_ravel_def
        array_after_def heap_after_def np_mul_def np_div_def fl_values Let_def)
  have l: "(2::nat) < length (flat (vec3 (3/2) 3 4))" by (simp add: vec3_def)
  from recombine_average [OF h] have t1: "fst (recombine two_first [two_second] two_heap) = None"
    by simp
  from recombine_average [OF h] have t2:
    "\<forall>i < length (flat (vec3 (3/2) 3 4)).
        round_trip_ok (1 / \<bar>2\<bar>) (flat (vec3 (3/2) 3 4) ! i)
        (flat (stored (array_after (recombine two_first [two_second] two_heap))
                      (heap_after (recombine two_first [two_second] two_heap))) ! i)
        (flat (to_std_data (array_after (recombine two_first [two_second] two_heap))
                           (heap_after (recombine two_first [two_second] two_heap))) ! i)"
    by (simp add: s m)
  from t2 l have t3:
    "round_trip_ok (1 / \<bar>2\<bar>) (flat (vec3 (3/2) 3 4) ! 2)
        (flat (stored (array_after (recombine two_first [two_second] two_heap))
                      (heap_after (recombine two_first [two_second] two_heap))) ! 2)
        (flat (to_std_data (array_after (recombine two_first [two_second] two_heap))
                           (heap_after (recombine two_first [two_second] two_heap))) ! 2)"
    by blast
  moreover have "is_finite (flat (vec3 (3/2) 3 4) ! 2)" "is_finite (flat (vec3 3 6 8) ! 2)"
    by (simp_all add: vec3_def)
  ultimately have t4:
    "\<bar>real_of (flat (to_std_data (array_after (recombine two_first [two_second] two_heap))
                                   (heap_after (recombine two_first [two_second] two_heap))) ! 2)
        - real_of (flat (vec3 (3/2) 3 4) ! 2)\<bar>
       \<le> round_trip_tolerance (1 / \<bar>2\<bar>) (real_of (flat (vec3 (3/2) 3 4) ! 2))"
    unfolding round_trip_ok_def p e by simp
  from h t1 m' p e t4 show ?thesis by (intro conjI)
qed

text \<open>
  C5 as stated fails when \<open>sigma\<close> is zero: for \<open>Array(shape=(1,), sigma=0.0)\<close> set to
  \<open>[1.]\<close> the standardized data is \<open>[inf]\<close>, which is also its mean, and after
  \<open>recombine()\<close> the standardized data is \<open>[nan]\<close>. It also fails by overflow: for
  \<open>sigma = 3.0\<close> and the value \<open>[1.7976931348623157e+308]\<close> the standardized data and
  its mean are the finite \<open>[5.992310449541052e+307]\<close>, and after \<open>recombine()\<close> the
  standardized data is \<open>[inf]\<close>.
\<close>

theorem recombine_average_counterexample:
  "np_mean_axis0 [to_std_data (fst (array_set_to [1] (Fin 0) (vec1 (Fin 1))))
                              (snd (array_set_to [1] (Fin 0) (vec1 (Fin 1))))] = Inr (vec1 PInf)
   \<and> recombination (fst (array_set_to [1] (Fin 0) (vec1 (Fin 1)))) = ''average''
   \<and> fst (recombine (fst (array_set_to [1] (Fin 0) (vec1 (Fin 1)))) []
                   (snd (array_set_to [1] (Fin 0) (vec1 (Fin 1))))) = None
   \<and> to_std_data
        (array_after (recombine (fst (array_set_to [1] (Fin 0) (vec1 (Fin 1)))) []
                   (snd (array_set_to [1] (Fin 0) (vec1 (Fin 1))))))
        (heap_after (recombine (fst (array_set_to [1] (Fin 0) (vec1 (Fin 1)))) []
                   (snd (array_set_to [1] (Fin 0) (vec1 (Fin 1))))))
      = vec1 NaN
   \<and> vec1 NaN \<noteq> vec1 PInf
   \<and> np_mean_axis0 [to_std_data (fst largest_array) (snd largest_array)]
       = Inr (vec1 (Fin third_of_max_float64))
   \<and> fst (recombine (fst largest_array) [] (snd largest_array)) = None
   \<and> to_std_data (array_after (recombine (fst largest_array) [] (snd largest_array)))
                  (heap_after (recombine (fst largest_array) [] (snd largest_array)))
       = vec1 PInf
   \<and> vec1 PInf \<noteq> vec1 (Fin third_of_max_float64)"
proof -
  have z: "np_div (Fin 1) (Fin 0) = PInf" "np_div PInf (Fin 1) = PInf"
    "np_mul (Fin 0) PInf = NaN" "np_div NaN (Fin 0) = NaN"
    by (simp_all add: np_div_def np_mul_def signed_inf_def)
  have a: "np_mean_axis0 [to_std_data (fst (array_set_to [1] (Fin 0) (vec1 (Fin 1))))
                              (snd (array_set_to [1] (Fin 0) (vec1 (Fin 1))))] = Inr (vec1 PInf)
   \<and> recombination (fst (array_set_to [1] (Fin 0) (vec1 (Fin 1)))) = ''average''
   \<and> fst (recombine (fst (array_set_to [1] (Fin 0) (vec1 (Fin 1)))) []
                   (snd (array_set_to [1] (Fin 0) (vec1 (Fin 1))))) = None
   \<and> to_std_data
        (array_after (recombine (fst (array_set_to [1] (Fin 0) (vec1 (Fin 1)))) []
                   (snd (array_set_to [1] (Fin 0) (vec1 (Fin 1))))))
        (heap_after (recombine (fst (array_set_to [1] (Fin 0) (vec1 (Fin 1)))) []
                   (snd (array_set_to [1] (Fin 0) (vec1 (Fin 1))))))
      = vec1 NaN
   \<and> vec1 NaN \<noteq> vec1 PInf"
    unfolding array_set_to_vec1
    by (simp add: recombine_def np_mean_axis0_def with_std_data_def np_reshape_def
        np_scalar_mul_def alloc_def np_zeros_def Let_def to_std_data_def np_div_scalar_def
        np_ravel_def vec1_def array_after_def heap_after_def z)
  have b: "np_mean_axis0 [to_std_data (fst largest_array) (snd largest_array)]
       = Inr (vec1 (Fin third_of_max_float64))
   \<and> fst (recombine (fst largest_array) [] (snd largest_array)) = None
   \<and> to_std_data (array_after (recombine (fst largest_array) [] (snd largest_array)))
                  (heap_after (recombine (fst largest_array) [] (snd largest_array)))
       = vec1 PInf
   \<and> vec1 PInf \<noteq> vec1 (Fin third_of_max_float64)"
    unfolding largest_array_eq
    by (simp add: recombine_def np_mean_axis0_def with_std_data_def np_reshape_def
        np_scalar_mul_def alloc_def np_zeros_def Let_def to_std_data_def np_div_scalar_def
        np_ravel_def vec1_def array_after_def heap_after_def np_div_max_3 np_div_third_1
        np_mul_3_third np_div_inf)
  from a b show ?thesis by simp
qed

text \<open>
  C6. An Array can be constructed with any recombination tag; when the tag is not
  \<open>"average"\<close>, \<open>recombine\<close> raises a ValueError whose message quotes the tag, and
  changes nothing.
\<close>

theorem unknown_recombination:
  assumes "recomb \<noteq> ''average''"
  shows "recombination (fst (Array_init shp sg distr recomb h)) = recomb
       \<and> recombine (fst (Array_init shp sg distr recomb h)) others
                   (snd (Array_init shp sg distr recomb h)) =
           (Some (ValueError (''Unknown recombination '' @ [CHR 0x22] @ recomb @ [CHR 0x22])),
            fst (Array_init shp sg distr recomb h), snd (Array_init shp sg distr recomb h))"
  using assms by (simp add: Array_init_def alloc_def recombine_def Let_def)

theorem unknown_recombination_witness:
  "''crossover'' \<noteq> ''average''
   \<and> recombine (fst (Array_init [2] (Fin 1) ''linear'' ''crossover'' [])) []
                 (snd (Array_init [2] (Fin 1) ''linear'' ''crossover'' [])) =
       (Some (ValueError (''Unknown recombination '' @ [CHR 0x22] @ ''crossover'' @ [CHR 0x22])),
        fst (Array_init [2] (Fin 1) ''linear'' ''crossover'' []),
        snd (Array_init [2] (Fin 1) ''linear'' ''crossover'' []))"
proof -
  have h: "''crossover'' \<noteq> ''average''" by simp
  from unknown_recombination [OF h, of "[2]" "Fin 1" "''linear''" "[]" "[]"] h
  show ?thesis by simp
qed

text \<open>
  C8. The setter of \<open>value\<close> raises a TypeError for an object that is not an
  \<open>ndarray\<close> and a ValueError for an array of another shape, and the Array is the same
  after either; an array of the same shape is stored as it is, and the getter returns the
  stored array itself, whatever \<open>sigma\<close> is.
\<close>

theorem value_setter_checks:
  "Array_set_value self (Other ty) h =
      (Some (TypeError (''Received a '' @ ty @ '' in place of a np.ndarray'')), self)
   \<and> (shape (h ! value_ref self) \<noteq> shape (h ! r) \<longrightarrow>
        Array_set_value self (Ndarray r) h =
          (Some (ValueError (''Cannot set array of shape '' @ shape_repr (shape (h ! value_ref self))
                             @ '' with value of shape '' @ shape_repr (shape (h ! r)))), self))
   \<and> (shape (h ! value_ref self) = shape (h ! r) \<longrightarrow>
        fst (Array_set_value self (Ndarray r) h) = None \<and>
        Array_value (snd (Array_set_value self (Ndarray r) h)) = Ndarray r)
   \<and> Array_value self = Ndarray (value_ref self)"
  by (simp add: Array_set_value_def Array_value_def)

theorem value_setter_checks_witness:
  "shape ([vec3 2 4 6, vec1 (Fin 1), vec3 1 2 3] ! value_ref two_first)
     \<noteq> shape ([vec3 2 4 6, vec1 (Fin 1), vec3 1 2 3] ! 1)
   \<and> Array_set_value two_first (Ndarray 1) [vec3 2 4 6, vec1 (Fin 1), vec3 1 2 3] =
       (Some (ValueError (''Cannot set array of shape '' @ shape_repr [3]
                          @ '' with value of shape '' @ shape_repr [1])), two_first)
   \<and> shape ([vec3 2 4 6, vec1 (Fin 1), vec3 1 2 3] ! value_ref two_first)
     = shape ([vec3 2 4 6, vec1 (Fin 1), vec3 1 2 3] ! 2)
   \<and> fst (Array_set_value two_first (Ndarray 2) [vec3 2 4 6, vec1 (Fin 1), vec3 1 2 3]) = None
   \<and> Array_value (snd (Array_set_value two_first (Ndarray 2) [vec3 2 4 6, vec1 (Fin 1), vec3 1 2 3]))
       = Ndarray 2
   \<and> Array_set_value two_first (Other ''<class 'list'>'') [vec3 2 4 6, vec1 (Fin 1), vec3 1 2 3] =
       (Some (TypeError ''Received a <class 'list'> in place of a np.ndarray''), two_first)"
proof -
  from value_setter_checks [of two_first "''<class 'list'>''" "[vec3 2 4 6, vec1 (Fin 1), vec3 1 2 3]" 1]
       value_setter_checks [of two_first "''<class 'list'>''" "[vec3 2 4 6, vec1 (Fin 1), vec3 1 2 3]" 2]
  show ?thesis by (simp add: two_first_def vec3_def vec1_def)
qed

text \<open>
  C3, as amended. After \<open>child = parent.spawn_child()\<close> the child holds the very array
  of the parent, and the parent's value is what it was. From then on, replacing the value
  of one of them leaves the value of the other as it was at the spawn: the value setter
  rebinds the reference of the object it is called on and writes nothing into the store
  (the object then holds the assigned array, or its old one if the setter raised), and
  \<open>with_std_data\<close> and \<open>recombine\<close> store a newly built array, which the other object does
  not hold.
\<close>

theorem spawn_child_value_sharing:
  assumes "value_ref parent < length h"
  shows "Array_value (fst (spawn_child parent h)) = Array_value parent
       \<and> stored parent (snd (spawn_child parent h)) = stored parent h
       \<and> stored (fst (spawn_child parent h)) (snd (spawn_child parent h)) = stored parent h
       \<and> Array_value (snd (Array_set_value (fst (spawn_child parent h)) v (snd (spawn_child parent h))))
           = (if fst (Array_set_value (fst (spawn_child parent h)) v (snd (spawn_child parent h))) = None
              then v else Array_value parent)
       \<and> Array_value (snd (Array_set_value parent v (snd (spawn_child parent h))))
           = (if fst (Array_set_value parent v (snd (spawn_child parent h))) = None
              then v else Array_value (fst (spawn_child parent h)))
       \<and> stored parent (heap_after (with_std_data (fst (spawn_child parent h)) d det
                                      (snd (spawn_child parent h)))) = stored parent h
       \<and> (fst (with_std_data (fst (spawn_child parent h)) d det (snd (spawn_child parent h))) = None
            \<longrightarrow> Array_value (array_after (with_std_data (fst (spawn_child parent h)) d det
                                              (snd (spawn_child parent h)))) \<noteq> Array_value parent)
       \<and> stored (fst (spawn_child parent h))
                 (heap_after (with_std_data parent d det (snd (spawn_child parent h)))) = stored parent h
       \<and> (fst (with_std_data parent d det (snd (spawn_child parent h))) = None
            \<longrightarrow> Array_value (array_after (with_std_data parent d det (snd (spawn_child parent h))))
                  \<noteq> Array_value (fst (spawn_child parent h)))
       \<and> stored parent (heap_after (recombine (fst (spawn_child parent h)) others
                                      (snd (spawn_child parent h)))) = stored parent h
       \<and> stored (fst (spawn_child parent h))
                 (heap_after (recombine parent others (snd (spawn_child parent h)))) = stored parent h"
proof -
  let ?h1 = "h @ [np_zeros (shape_arg parent)]"
  have r: "value_ref parent < length ?h1"
    using assms by simp
  have s: "Array_value (snd (Array_set_value parent v ?h1))
           = (if fst (Array_set_value parent v ?h1) = None then v else Array_value parent)"
    by (cases v) (simp_all add: Array_set_value_def Array_value_def)
  have w: "fst (with_std_data parent d det ?h1) = None
            \<longrightarrow> Array_value (array_after (with_std_data parent d det ?h1)) \<noteq> Array_value parent"
    using r
    by (auto simp: with_std_data_def array_after_def Array_value_def alloc_def split: sum.splits)
  show ?thesis
    using assms s w
    by (simp add: spawn_child_eq stored_def with_std_data_keeps_store [OF r]
        recombine_keeps_store [OF r] nth_append)
qed

theorem spawn_child_value_sharing_witness:
  "value_ref (fst fresh_parent) < length (snd fresh_parent)
   \<and> Array_value (fst (spawn_child (fst fresh_parent) (snd fresh_parent)))
       = Array_value (fst fresh_parent)
   \<and> fst (Array_set_value (fst (spawn_child (fst fresh_parent) (snd fresh_parent))) (Ndarray 1)
            (snd (spawn_child (fst fresh_parent) (snd fresh_parent)))) = None
   \<and> Array_value (snd (Array_set_value (fst (spawn_child (fst fresh_parent) (snd fresh_parent)))
            (Ndarray 1) (snd (spawn_child (fst fresh_parent) (snd fresh_parent))))) = Ndarray 1
   \<and> stored (fst fresh_parent) (snd (spawn_child (fst fresh_parent) (snd fresh_parent)))
       = vec1 (Fin 0)
   \<and> fst (with_std_data (fst (spawn_child (fst fresh_parent) (snd fresh_parent)))
                       (vec1 (Fin 7)) True (snd (spawn_child (fst fresh_parent) (snd fresh_parent))))
       = None
   \<and> stored (fst fresh_parent)
        (heap_after (with_std_data (fst (spawn_child (fst fresh_parent) (snd fresh_parent)))
                       (vec1 (Fin 7)) True (snd (spawn_child (fst fresh_parent) (snd fresh_parent)))))
       = vec1 (Fin 0)
   \<and> Array_value (array_after (with_std_data (fst (spawn_child (fst fresh_parent) (snd fresh_parent)))
                       (vec1 (Fin 7)) True (snd (spawn_child (fst fresh_parent) (snd fresh_parent)))))
       \<noteq> Array_value (fst fresh_parent)
   \<and> stored (array_after (with_std_data (fst (spawn_child (fst fresh_parent) (snd fresh_parent)))
                       (vec1 (Fin 7)) True (snd (spawn_child (fst fresh_parent) (snd fresh_parent)))))
        (heap_after (with_std_data (fst (spawn_child (fst fresh_parent) (snd fresh_parent)))
                       (vec1 (Fin 7)) True (snd (spawn_child (fst fresh_parent) (snd fresh_parent)))))
       = vec1 (Fin 7)"
proof -
  have h: "value_ref (fst fresh_parent) < length (snd fresh_parent)"
    by (simp add: fresh_parent_eq)
  have s: "stored (fst fresh_parent) (snd fresh_parent) = vec1 (Fin 0)"
    by (simp add: fresh_parent_eq stored_def)
  have c: "fst (Array_set_value (fst (spawn_child (fst fresh_parent) (snd fresh_parent))) (Ndarray 1)
            (snd (spawn_child (fst fresh_parent) (snd fresh_parent)))) = None
    \<and> fst (with_std_data (fst (spawn_child (fst fresh_parent) (snd fresh_parent)))
                       (vec1 (Fin 7)) True (snd (spawn_child (fst fresh_parent) (snd fresh_parent))))
       = None
    \<and> stored (array_after (with_std_data (fst (spawn_child (fst fresh_parent) (snd fresh_parent)))
                       (vec1 (Fin 7)) True (snd (spawn_child (fst fresh_parent) (snd fresh_parent)))))
        (heap_after (with_std_data (fst (spawn_child (fst fresh_parent) (snd fresh_parent)))
                       (vec1 (Fin 7)) True (snd (spawn_child (fst fresh_parent) (snd fresh_parent)))))
       = vec1 (Fin 7)"
    unfolding fresh_child_def [symmetric] fresh_child_eq
    by (simp add: with_std_data_def np_reshape_def np_scalar_mul_def alloc_def vec1_def stored_def
        array_after_def heap_after_def Array_set_value_def np_mul_def fl_values)
  from spawn_child_value_sharing [OF h, of "Ndarray 1" "vec1 (Fin 7)" True "[]"] h s c
  show ?thesis by simp
qed

text \<open>
  C3 as stated fails: the child of \<open>Array(shape=(1,))\<close> returns the parent's array, and
  writing \<open>5\<close> into element 0 of it changes the value of the parent from \<open>[0.]\<close> to
  \<open>[5.]\<close>.
\<close>

theorem spawn_isolation_counterexample:
  "Array_value (fst fresh_child) = Ndarray 0
   \<and> stored (fst fresh_parent) (snd fresh_child) = vec1 (Fin 0)
   \<and> fst (ndarray_setitem 0 0 (Fin 5) (snd fresh_child)) = None
   \<and> stored (fst fresh_parent) (snd (ndarray_setitem 0 0 (Fin 5) (snd fresh_child))) = vec1 (Fin 5)
   \<and> vec1 (Fin 5) \<noteq> vec1 (Fin 0)"
  by (simp add: fresh_child_eq fresh_parent_eq Array_value_def stored_def ndarray_setitem_def vec1_def)

section \<open>Properties of the containers\<close>

subsection \<open>\<open>int(str(k)) = k\<close>\<close>

lemma digit_val_digit_char: "d < 10 \<Longrightarrow> digit_val (digit_char d) = Some d"
  by (simp add: digit_val_def digit_char_def Let_def)

lemma digit_char_not_sign: "d < 10 \<Longrightarrow> digit_char d \<noteq> CHR ''-'' \<and> digit_char d \<noteq> CHR ''+''"
proof -
  assume d: "d < 10"
  have v: "of_char (digit_char d) = 48 + d"
    using d by (simp add: digit_char_def)
  have "digit_char d \<noteq> CHR ''-''"
  proof
    assume "digit_char d = CHR ''-''"
    then have "(of_char (digit_char d) :: nat) = of_char (CHR ''-'')" by simp
    with v show False by simp
  qed
  moreover have "digit_char d \<noteq> CHR ''+''"
  proof
    assume "digit_char d = CHR ''+''"
    then have "(of_char (digit_char d) :: nat) = of_char (CHR ''+'')" by simp
    with v show False by simp
  qed
  ultimately show ?thesis by simp
qed

lemma parse_digits_append:
  "parse_digits acc (xs @ ys) =
     (case parse_digits acc xs of None \<Rightarrow> None | Some a \<Rightarrow> parse_digits a ys)"
  by (induction xs arbitrary: acc) (simp_all split: option.splits)

lemma parse_digits_str_nat: "parse_digits 0 (str_nat n) = Some n"
proof (induction n rule: str_nat.induct)
  case (1 n)
  show ?case
  proof (cases "n < 10")
    case True
    then show ?thesis by (simp add: str_nat.simps [of n] digit_val_digit_char)
  next
    case False
    with 1 have "parse_digits 0 (str_nat (n div 10)) = Some (n div 10)" by simp
    with False show ?thesis
      by (simp add: str_nat.simps [of n] parse_digits_append digit_val_digit_char)
  qed
qed

lemma str_nat_hd: "\<exists>d cs. d < 10 \<and> str_nat n = digit_char d # cs"
proof (induction n rule: str_nat.induct)
  case (1 n)
  show ?case
  proof (cases "n < 10")
    case True
    then show ?thesis by (auto simp: str_nat.simps [of n])
  next
    case False
    with 1 obtain d cs where "d < 10" "str_nat (n div 10) = digit_char d # cs" by auto
    with False show ?thesis by (auto simp: str_nat.simps [of n])
  qed
qed

lemma py_int_str_nat: "py_int (KStr (str_nat n)) = Some (int n)"
proof -
  obtain d cs where d: "d < 10" and s: "str_nat n = digit_char d # cs"
    using str_nat_hd by blast
  have "int_of_str (str_nat n) = map_option int (parse_digits 0 (str_nat n))"
    using digit_char_not_sign [OF d] by (simp add: int_of_str_def s)
  then show ?thesis by (simp add: parse_digits_str_nat)
qed

subsection \<open>Sorting a permutation of the constructed items\<close>











subsection \<open>The loop of the setters\<close>

lemma enumerate_assign_result:
  assumes inj: "inj key"
  shows "(\<forall>k. (map_of ps (key k) \<noteq> None) = (k < n)) \<Longrightarrow> i \<le> n \<Longrightarrow>
     (\<forall>k. i \<le> k \<and> k < i + length vals \<and> k < n \<longrightarrow>
          fst (assign (the (map_of ps (key k))) (vals ! (k - i))) = None) \<Longrightarrow>
     fst (enumerate_assign key assign (enumerate i vals) ps) =
       (if i + length vals \<le> n then None else Some (KeyError (key n)))
     \<and> (\<forall>k. map_of (snd (enumerate_assign key assign (enumerate i vals) ps)) (key k) =
          (if i \<le> k \<and> k < i + length vals \<and> k < n
           then Some (snd (assign (the (map_of ps (key k))) (vals ! (k - i))))
           else map_of ps (key k)))"
proof (induction vals arbitrary: i ps)
  case Nil
  then show ?case by auto
next
  case (Cons v vs)
  show ?case
  proof (cases "i < n")
    case False
    with Cons.prems have i: "i = n" by simp
    with Cons.prems(1) have "map_of ps (key i) = None" by blast
    then show ?thesis using i by auto
  next
    case True
    with Cons.prems(1) obtain c where c: "map_of ps (key i) = Some c" by blast
    from True have "i \<le> i \<and> i < i + length (v # vs) \<and> i < n" by simp
    with Cons.prems(3) have "fst (assign (the (map_of ps (key i))) ((v # vs) ! (i - i))) = None"
      by blast
    then have "fst (assign c v) = None" by (simp add: c)
    then obtain c' where a: "assign c v = (None, c')"
      by (cases "assign c v") simp
    let ?ps1 = "AList.update (key i) c' ps"
    have m1: "\<And>k. map_of ?ps1 (key k) = (if k = i then Some c' else map_of ps (key k))"
      using inj by (simp add: update_conv' inj_eq)
    have keys1: "\<forall>k. (map_of ?ps1 (key k) \<noteq> None) = (k < n)"
      using Cons.prems(1) True by (simp add: m1)
    have step: "enumerate_assign key assign (enumerate i (v # vs)) ps =
                enumerate_assign key assign (enumerate (Suc i) vs) ?ps1"
      by (simp add: c a)
    have ok1: "\<forall>k. Suc i \<le> k \<and> k < Suc i + length vs \<and> k < n \<longrightarrow>
          fst (assign (the (map_of ?ps1 (key k))) (vs ! (k - Suc i))) = None"
    proof (intro allI impI)
      fix k assume k: "Suc i \<le> k \<and> k < Suc i + length vs \<and> k < n"
      then have "(v # vs) ! (k - i) = vs ! (k - Suc i)" by (simp add: nth_Cons')
      moreover from k have "map_of ?ps1 (key k) = map_of ps (key k)" by (simp add: m1)
      moreover from k have "i \<le> k \<and> k < i + length (v # vs) \<and> k < n" by simp
      with Cons.prems(3) have "fst (assign (the (map_of ps (key k))) ((v # vs) ! (k - i))) = None"
        by blast
      ultimately show "fst (assign (the (map_of ?ps1 (key k))) (vs ! (k - Suc i))) = None"
        by simp
    qed
    from True have "Suc i \<le> n" by simp
    from Cons.IH [OF keys1 this ok1]
    have ih1: "fst (enumerate_assign key assign (enumerate (Suc i) vs) ?ps1) =
                 (if Suc i + length vs \<le> n then None else Some (KeyError (key n)))"
      and ih2: "\<And>k. map_of (snd (enumerate_assign key assign (enumerate (Suc i) vs) ?ps1)) (key k) =
          (if Suc i \<le> k \<and> k < Suc i + length vs \<and> k < n
           then Some (snd (assign (the (map_of ?ps1 (key k))) (vs ! (k - Suc i))))
           else map_of ?ps1 (key k))"
      by simp_all
    have 1: "fst (enumerate_assign key assign (enumerate i (v # vs)) ps) =
       (if i + length (v # vs) \<le> n then None else Some (KeyError (key n)))"
      by (simp only: step ih1) simp
    have 2: "map_of (snd (enumerate_assign key assign (enumerate i (v # vs)) ps)) (key k) =
          (if i \<le> k \<and> k < i + length (v # vs) \<and> k < n
           then Some (snd (assign (the (map_of ps (key k))) ((v # vs) ! (k - i))))
           else map_of ps (key k))" for k
    proof (cases "k = i")
      case True
      then show ?thesis using \<open>i < n\<close> by (simp only: step ih2 m1) (simp add: c a)
    next
      case False
      show ?thesis
      proof (cases "i < k")
        case True
        then have "(v # vs) ! (k - i) = vs ! (k - Suc i)"
          by (simp add: nth_Cons')
        with True False show ?thesis by (simp only: step ih2 m1) auto
      next
        case False
        with \<open>k \<noteq> i\<close> have "k < i" by simp
        then show ?thesis by (simp only: step ih2 m1) simp
      qed
    qed
    from 1 2 show ?thesis by blast
  qed
qed

lemma map_of_enumerate_from:
  assumes "inj key"
  shows "map_of (map (\<lambda>(k, p). (key k, f p)) (enumerate i args)) (key j) =
           (if i \<le> j \<and> j < i + length args then Some (f (args ! (j - i))) else None)"
proof (induction args arbitrary: i)
  case Nil
  then show ?case by simp
next
  case (Cons a args)
  show ?case
  proof (cases "j = i")
    case True
    then show ?thesis by simp
  next
    case False
    then have k: "key i \<noteq> key j" using assms by (simp add: inj_eq)
    have n: "i < j \<Longrightarrow> (a # args) ! (j - i) = args ! (j - Suc i)"
      by (simp add: nth_Cons')
    have step: "map_of (map (\<lambda>(k, p). (key k, f p)) (enumerate i (a # args))) (key j) =
                map_of (map (\<lambda>(k, p). (key k, f p)) (enumerate (Suc i) args)) (key j)"
      using k by simp
    show ?thesis
    proof (cases "i < j")
      case True
      with n show ?thesis by (simp only: step Cons.IH) auto
    next
      case False
      with \<open>j \<noteq> i\<close> show ?thesis by (simp only: step Cons.IH) auto
    qed
  qed
qed

lemma map_of_enumerate_keys:
  assumes "inj key"
  shows "map_of (map (\<lambda>(k, p). (key k, f p)) (enumerate 0 args)) (key j) =
           (if j < length args then Some (f (args ! j)) else None)"
  using map_of_enumerate_from [OF assms, of f 0 args j] by simp

lemma inj_int_key: "inj (\<lambda>k. KInt (int k))"
  by (simp add: inj_on_def)

lemma inj_str_key: "inj (\<lambda>k. KStr (str_nat k))"
proof (rule injI)
  fix a b assume "KStr (str_nat a) = KStr (str_nat b)"
  then have "py_int (KStr (str_nat a)) = py_int (KStr (str_nat b))" by simp
  then show "a = b" by (simp only: py_int_str_nat) simp
qed

lemma Tuple_init_map_of:
  assumes "Tuple_init constant sanity args = Inr ps"
  shows "map_of ps (KInt (int j)) =
           (if j < length args then Some (Param (as_parameter constant (args ! j))) else None)"
proof -
  have "ps = map (\<lambda>(k, p). (KInt (int k), Param (as_parameter constant p))) (enumerate 0 args)"
    using assms by (auto simp: Tuple_init_def Let_def split_def o_def split: option.splits)
  then show ?thesis
    using map_of_enumerate_keys [OF inj_int_key, of "\<lambda>p. Param (as_parameter constant p)" args j]
    by simp
qed

lemma ParametersList_init_map_of:
  "map_of (ParametersList_init args) (KStr (str_nat j)) =
           (if j < length args then Some (args ! j) else None)"
  using map_of_enumerate_keys [OF inj_str_key, of "\<lambda>p. p" args j]
  by (simp add: ParametersList_init_def)

subsection \<open>The claims\<close>


text \<open>
  C7, as amended. For a \<open>Tuple\<close> or a \<open>ParametersList\<close> of \<open>n\<close> children whose
  children accept the values assigned to them (the setter of the child at each position
  that the sequence reaches does not raise on the element at that position): the setter
  raises exactly when the assigned sequence is longer than \<open>n\<close>, a KeyError for the key
  of position \<open>n\<close>, after all \<open>n\<close> children have been assigned. A shorter sequence raises
  nothing: its elements are assigned to the first children and the other children stay as
  they were.
\<close>

theorem setter_length_mismatch:
  "(Tuple_init constant sanity args = Inr ps
      \<and> (\<forall>k < min (length vals) (length args).
            fst (setv (as_parameter constant (args ! k)) (vals ! k)) = None) \<longrightarrow>
            fst (Tuple_set_value constant setv vals ps) =
              (if length vals \<le> length args then None
               else Some (KeyError (KInt (int (length args)))))
          \<and> (\<forall>k < length args.
                map_of (snd (Tuple_set_value constant setv vals ps)) (KInt (int k)) =
                  (if k < length vals
                   then Some (Param (snd (setv (as_parameter constant (args ! k)) (vals ! k))))
                   else Some (Param (as_parameter constant (args ! k))))))
   \<and> ((\<forall>k < min (length vals) (length args).
            fst (ParametersList_assign setv (args ! k) (vals ! k)) = None) \<longrightarrow>
         fst (ParametersList_set_value setv vals (ParametersList_init args)) =
              (if length vals \<le> length args then None
               else Some (KeyError (KStr (str_nat (length args)))))
       \<and> (\<forall>k < length args.
                map_of (snd (ParametersList_set_value setv vals (ParametersList_init args)))
                       (KStr (str_nat k)) =
                  (if k < length vals
                   then Some (snd (ParametersList_assign setv (args ! k) (vals ! k)))
                   else Some (args ! k))))"
proof -
  have T: "fst (Tuple_set_value constant setv vals ps) =
              (if length vals \<le> length args then None
               else Some (KeyError (KInt (int (length args)))))
          \<and> (\<forall>k < length args.
                map_of (snd (Tuple_set_value constant setv vals ps)) (KInt (int k)) =
                  (if k < length vals
                   then Some (Param (snd (setv (as_parameter constant (args ! k)) (vals ! k))))
                   else Some (Param (as_parameter constant (args ! k)))))"
    if t: "Tuple_init constant sanity args = Inr ps"
      and ok: "\<forall>k < min (length vals) (length args).
            fst (setv (as_parameter constant (args ! k)) (vals ! k)) = None"
  proof -
    have keys: "\<forall>k. (map_of ps (KInt (int k)) \<noteq> None) = (k < length args)"
      by (simp add: Tuple_init_map_of [OF t])
    have ok': "\<forall>k. 0 \<le> k \<and> k < 0 + length vals \<and> k < length args \<longrightarrow>
          fst (Tuple_assign constant setv (the (map_of ps (KInt (int k)))) (vals ! (k - 0))) = None"
      using ok by (simp add: Tuple_init_map_of [OF t] Tuple_assign_def split_def as_parameter_def)
    from enumerate_assign_result [where assign = "Tuple_assign constant setv", OF inj_int_key keys _ ok']
    show ?thesis
      by (simp add: Tuple_set_value_def Tuple_init_map_of [OF t] Tuple_assign_def split_def
          as_parameter_def)
  qed
  have P: "fst (ParametersList_set_value setv vals (ParametersList_init args)) =
              (if length vals \<le> length args then None
               else Some (KeyError (KStr (str_nat (length args)))))
       \<and> (\<forall>k < length args.
                map_of (snd (ParametersList_set_value setv vals (ParametersList_init args)))
                       (KStr (str_nat k)) =
                  (if k < length vals
                   then Some (snd (ParametersList_assign setv (args ! k) (vals ! k)))
                   else Some (args ! k)))"
    if ok: "\<forall>k < min (length vals) (length args).
            fst (ParametersList_assign setv (args ! k) (vals ! k)) = None"
  proof -
    have keysP: "\<forall>k. (map_of (ParametersList_init args) (KStr (str_nat k)) \<noteq> None) = (k < length args)"
      by (simp add: ParametersList_init_map_of)
    have ok': "\<forall>k. 0 \<le> k \<and> k < 0 + length vals \<and> k < length args \<longrightarrow>
          fst (ParametersList_assign setv (the (map_of (ParametersList_init args) (KStr (str_nat k))))
                 (vals ! (k - 0))) = None"
      using ok by (simp add: ParametersList_init_map_of)
    from enumerate_assign_result [where assign = "ParametersList_assign setv", OF inj_str_key keysP _ ok']
    show ?thesis
      by (simp add: ParametersList_set_value_def ParametersList_init_map_of)
  qed
  from T P show ?thesis by blast
qed


theorem setter_length_mismatch_witness:
  "Tuple_init leaf_constant no_check [Param 1, Param 2] = Inr [(KInt 0, Param 1), (KInt 1, Param 2)]
   \<and> fst (picky_set (as_parameter leaf_constant (Param 1)) 7) = None
   \<and> fst (picky_set (as_parameter leaf_constant (Param 2)) 8) = None
   \<and> fst (picky_set 1 (-7)) \<noteq> None
   \<and> fst (Tuple_set_value leaf_constant picky_set [7, 8, 9] [(KInt 0, Param 1), (KInt 1, Param 2)])
       = Some (KeyError (KInt 2))
   \<and> fst (ParametersList_assign picky_set (Param 1) 7) = None
   \<and> fst (ParametersList_set_value picky_set [7] (ParametersList_init [Param 1, Param 2])) = None"
proof -
  have t: "Tuple_init leaf_constant no_check [Param 1, Param 2] = Inr [(KInt 0, Param 1), (KInt 1, Param 2)]"
    by (simp add: Tuple_init_def no_check_def as_parameter_def)
  have p: "fst (picky_set (as_parameter leaf_constant (Param 1)) 7) = None"
    "fst (picky_set (as_parameter leaf_constant (Param 2)) 8) = None"
    "fst (ParametersList_assign picky_set (Param 1) 7) = None"
    by (simp_all add: picky_set_def as_parameter_def ParametersList_assign_def)
  have h1: "\<forall>k < min (length [7, 8, 9 :: int]) (length [Param 1, Param (2::int) :: (int, int) child]).
         fst (picky_set (as_parameter leaf_constant ([Param 1, Param 2] ! k)) ([7, 8, 9] ! k)) = None"
    using p by (simp add: less_Suc_eq nth_Cons')
  have h2: "\<forall>k < min (length [7 :: int]) (length [Param 1, Param (2::int) :: (int, int) child]).
         fst (ParametersList_assign picky_set ([Param 1, Param 2] ! k) ([7] ! k)) = None"
    using p by simp
  have n: "fst (picky_set 1 (-7)) \<noteq> None"
    by (simp add: picky_set_def)
  from setter_length_mismatch [of leaf_constant no_check "[Param 1, Param 2]"
         "[(KInt 0, Param 1), (KInt 1, Param 2)]" "[7, 8, 9]" picky_set] t h1
  have a: "fst (Tuple_set_value leaf_constant picky_set [7, 8, 9] [(KInt 0, Param 1), (KInt 1, Param 2)])
       = Some (KeyError (KInt 2))"
    by simp
  from setter_length_mismatch [of leaf_constant no_check "[Param 1, Param 2]"
         "[(KInt 0, Param 1), (KInt 1, Param 2)]" "[7]" picky_set] h2
  have b: "fst (ParametersList_set_value picky_set [7] (ParametersList_init [Param 1, Param 2])) = None"
    by simp
  from t p n a b show ?thesis by (intro conjI)
qed

text \<open>
  C7 as stated fails: a \<open>Tuple\<close> of two children takes a tuple of one element without an
  error and changes its first child only; a tuple of three elements raises a KeyError, but
  only after both children have been changed. \<open>ParametersList\<close> does the same.
\<close>

theorem setter_length_mismatch_counterexample:
  "Tuple_init leaf_constant no_check [Param 1, Param 2] = Inr [(KInt 0, Param 1), (KInt 1, Param 2)]
   \<and> Tuple_set_value leaf_constant leaf_set [7] [(KInt 0, Param 1), (KInt 1, Param 2)]
       = (None, [(KInt 0, Param 7), (KInt 1, Param 2)])
   \<and> Tuple_set_value leaf_constant leaf_set [7, 8, 9] [(KInt 0, Param 1), (KInt 1, Param 2)]
       = (Some (KeyError (KInt 2)), [(KInt 0, Param 7), (KInt 1, Param 8)])
   \<and> ParametersList_init [Param 1, Raw 2] = [(KStr ''0'', Param 1), (KStr ''1'', Raw (2::int))]
   \<and> ParametersList_set_value leaf_set [7] [(KStr ''0'', Param 1), (KStr ''1'', Raw 2)]
       = (None, [(KStr ''0'', Param 7), (KStr ''1'', Raw 2)])
   \<and> ParametersList_set_value leaf_set [7, 8, 9] [(KStr ''0'', Param 1), (KStr ''1'', Raw 2)]
       = (Some (KeyError (KStr ''2'')), [(KStr ''0'', Param 7), (KStr ''1'', Raw 8)])"
proof -
  have s: "str_nat 0 = ''0''" "str_nat 1 = ''1''" "str_nat 2 = ''2''"
    by code_simp+
  have s': "str_nat (Suc 0) = ''1''" "str_nat (Suc (Suc 0)) = ''2''"
    using s by (simp_all add: numeral_2_eq_2)
  show ?thesis
    by (simp add: Tuple_init_def no_check_def as_parameter_def Tuple_set_value_def
        ParametersList_set_value_def ParametersList_init_def Tuple_assign_def
        ParametersList_assign_def leaf_set_def leaf_constant_def s s')
qed

end
